theory Spec2Isabelle
  imports Complex_Main "HOL-Library.Product_Lexorder"
begin

section \<open>Calendar dates\<close>

text \<open>
  Python's \<open>datetime.date\<close> and the SQL \<open>date\<close> values of the queries: a year, a month
  and a day of month. Both compare dates field by field, year first.
\<close>

datatype date = Date (year: int) (month: int) (day: int)

definition date_key :: "date \<Rightarrow> int \<times> int \<times> int" where
  "date_key d = (year d, month d, day d)"

instantiation date :: linorder
begin

definition less_eq_date :: "date \<Rightarrow> date \<Rightarrow> bool" where
  "less_eq_date a b = (date_key a \<le> date_key b)"

definition less_date :: "date \<Rightarrow> date \<Rightarrow> bool" where
  "less_date a b = (date_key a < date_key b)"

instance
proof
  fix x y z :: date
  show "(x < y) = (x \<le> y \<and> \<not> y \<le> x)"
    unfolding less_eq_date_def less_date_def by (rule less_le_not_le)
  show "x \<le> x"
    unfolding less_eq_date_def by simp
  show "x \<le> y \<Longrightarrow> y \<le> z \<Longrightarrow> x \<le> z"
    unfolding less_eq_date_def by (rule order_trans)
  show "x \<le> y \<Longrightarrow> y \<le> x \<Longrightarrow> x = y"
    unfolding less_eq_date_def date_key_def by (cases x; cases y) auto
  show "x \<le> y \<or> y \<le> x"
    unfolding less_eq_date_def by (rule linear)
qed

end

section \<open>Python values and exceptions\<close>

text \<open>
  The exceptions the modelled functions can raise. \<open>HTTPException\<close> carries the status
  code and the detail message given in the source.
\<close>

datatype error =
    HTTPException (status_code: nat) (detail: string)
  | ValueError
  | TypeError
  | ZeroDivisionError

text \<open>
  A value found in a result row (\<open>dict[str, Any]\<close>): \<open>None\<close>, an \<open>int\<close>, a \<open>float\<close>
  (rounding is not modelled: a float is the real number it stands for, so the model has
  no NaN and no infinity; the columns read here are SQL integers, counts and sums), or a
  \<open>str\<close> that is not a numeric literal, on which \<open>float()\<close> raises \<open>ValueError\<close>.
\<close>

datatype pyval = PyNone | PyInt int | PyFloat real | PyNonNumeric string

type_synonym row = "string \<rightharpoonup> pyval"

definition row_get :: "row \<Rightarrow> string \<Rightarrow> pyval" where
  "row_get r k = (case r k of None \<Rightarrow> PyNone | Some v \<Rightarrow> v)"

fun truthy :: "pyval \<Rightarrow> bool" where
  "truthy PyNone = False"
| "truthy (PyInt i) = (i \<noteq> 0)"
| "truthy (PyFloat x) = (x \<noteq> 0)"
| "truthy (PyNonNumeric s) = (s \<noteq> [])"

definition or_zero :: "pyval \<Rightarrow> pyval" where
  "or_zero v = (if truthy v then v else PyInt 0)"

fun py_float :: "pyval \<Rightarrow> error + real" where
  "py_float PyNone = Inl TypeError"
| "py_float (PyInt i) = Inr (of_int i)"
| "py_float (PyFloat x) = Inr x"
| "py_float (PyNonNumeric s) = Inl ValueError"

fun py_add :: "pyval \<Rightarrow> pyval \<Rightarrow> error + pyval" where
  "py_add (PyInt a) (PyInt b) = Inr (PyInt (a + b))"
| "py_add (PyInt a) (PyFloat b) = Inr (PyFloat (of_int a + b))"
| "py_add (PyFloat a) (PyInt b) = Inr (PyFloat (a + of_int b))"
| "py_add (PyFloat a) (PyFloat b) = Inr (PyFloat (a + b))"
| "py_add (PyNonNumeric a) (PyNonNumeric b) = Inr (PyNonNumeric (a @ b))"
| "py_add _ _ = Inl TypeError"

fun py_truediv :: "pyval \<Rightarrow> real \<Rightarrow> error + real" where
  "py_truediv (PyInt a) d = (if d = 0 then Inl ZeroDivisionError else Inr (of_int a / d))"
| "py_truediv (PyFloat a) d = (if d = 0 then Inl ZeroDivisionError else Inr (a / d))"
| "py_truediv _ d = Inl TypeError"

section \<open>Date helpers of the analytics module\<close>

text \<open>\<open>_days_in_month\<close>, called with a month between 1 and 12.\<close>

definition days_in_month :: "int \<Rightarrow> int \<Rightarrow> int" where
  "days_in_month y m =
     (if m \<in> {1, 3, 5, 7, 8, 10, 12} then 31
      else if m \<in> {4, 6, 9, 11} then 30
      else if (y mod 4 = 0 \<and> y mod 100 \<noteq> 0) \<or> y mod 400 = 0 then 29
      else 28)"

text \<open>
  A date that \<open>datetime.date\<close> can hold: the constructor and \<open>replace\<close> raise
  \<open>ValueError\<close> for anything else (\<open>MINYEAR\<close> is 1 and \<open>MAXYEAR\<close> is 9999).
\<close>

definition valid_date :: "date \<Rightarrow> bool" where
  "valid_date d =
     (1 \<le> year d \<and> year d \<le> 9999 \<and> 1 \<le> month d \<and> month d \<le> 12 \<and>
      1 \<le> day d \<and> day d \<le> days_in_month (year d) (month d))"

definition py_date :: "int \<Rightarrow> int \<Rightarrow> int \<Rightarrow> error + date" where
  "py_date y m d = (if valid_date (Date y m d) then Inr (Date y m d) else Inl ValueError)"

text \<open>\<open>_month_floor\<close>, \<open>_quarter_floor\<close>, \<open>_year_floor\<close>: \<open>replace\<close> with a first day
  (and a first month of a quarter or year) cannot leave the range of dates.\<close>

definition month_floor :: "date \<Rightarrow> date" where
  "month_floor v = Date (year v) (month v) 1"

definition quarter_floor :: "date \<Rightarrow> date" where
  "quarter_floor v = Date (year v) (((month v - 1) div 3) * 3 + 1) 1"

definition year_floor :: "date \<Rightarrow> date" where
  "year_floor v = Date (year v) 1 1"

text \<open>\<open>_shift_months\<close>. Python's \<open>//\<close> and \<open>%\<close> round towards minus infinity, as
  \<open>div\<close> and \<open>mod\<close> on \<open>int\<close> do.\<close>

definition shift_months :: "date \<Rightarrow> int \<Rightarrow> error + date" where
  "shift_months v months =
     (let y = year v + (month v - 1 + months) div 12;
          m = (month v - 1 + months) mod 12 + 1;
          d = min (day v) (days_in_month y m)
      in py_date y m d)"

section \<open>Period resolution (\<open>_resolve_period\<close>)\<close>

datatype granularity = Monthly | Quarterly | Yearly

record period =
  pstart :: date
  pend :: date

definition floor_funcs :: "granularity \<Rightarrow> date \<Rightarrow> date" where
  "floor_funcs g = (case g of Monthly \<Rightarrow> month_floor | Quarterly \<Rightarrow> quarter_floor | Yearly \<Rightarrow> year_floor)"

definition step_lookup :: "granularity \<Rightarrow> int" where
  "step_lookup g = (case g of Monthly \<Rightarrow> -11 | Quarterly \<Rightarrow> -15 | Yearly \<Rightarrow> -9)"

text \<open>
  \<open>date.today()\<close> is the first argument. The defaults are computed before the supplied
  bounds are looked at, as in the source, so a \<open>ValueError\<close> of theirs comes first.
  A \<open>date\<close> is always truthy: \<open>start or start_default\<close> is \<open>start\<close> unless it is \<open>None\<close>.
\<close>

definition resolve_period ::
    "date \<Rightarrow> granularity \<Rightarrow> date option \<Rightarrow> date option \<Rightarrow> error + period" where
  "resolve_period today g start end =
     (let floored = floor_funcs g today in
      case (case g of
              Monthly \<Rightarrow> shift_months floored (step_lookup g)
            | Quarterly \<Rightarrow> shift_months floored (step_lookup g * 3)
            | Yearly \<Rightarrow> py_date (year floored + step_lookup g) (month floored) (day floored)) of
        Inl e \<Rightarrow> Inl e
      | Inr start_default \<Rightarrow>
          let end_default = floor_funcs g today;
              resolved_start = (case start of None \<Rightarrow> start_default | Some s \<Rightarrow> s);
              resolved_end = (case end of None \<Rightarrow> end_default | Some e \<Rightarrow> e)
          in if resolved_end < resolved_start
             then Inl (HTTPException 400 ''End date must be after start date.'')
             else Inr \<lparr>pstart = resolved_start, pend = resolved_end\<rparr>)"

section \<open>Month keys (\<open>_month_range_from_key\<close>)\<close>









section \<open>SQL values and tables\<close>

text \<open>
  SQL conditions have three values; \<open>None\<close> is the unknown value that a comparison with
  \<open>NULL\<close> gives. A \<open>WHERE\<close>, \<open>FILTER\<close> or \<open>JOIN ... ON\<close> keeps a row only when its
  condition is true.
\<close>

type_synonym sqlbool = "bool option"

definition sql_and :: "sqlbool \<Rightarrow> sqlbool \<Rightarrow> sqlbool" where
  "sql_and a b =
     (if a = Some False then Some False
      else if b = Some False then Some False
      else if a = None then None
      else if b = None then None
      else Some True)"

definition sql_or :: "sqlbool \<Rightarrow> sqlbool \<Rightarrow> sqlbool" where
  "sql_or a b =
     (if a = Some True then Some True
      else if b = Some True then Some True
      else if a = None then None
      else if b = None then None
      else Some False)"

definition sql_cmp :: "('a \<Rightarrow> 'a \<Rightarrow> bool) \<Rightarrow> 'a option \<Rightarrow> 'a option \<Rightarrow> sqlbool" where
  "sql_cmp rel a b =
     (case a of None \<Rightarrow> None
      | Some x \<Rightarrow> (case b of None \<Rightarrow> None | Some y \<Rightarrow> Some (rel x y)))"

definition is_null :: "'a option \<Rightarrow> sqlbool" where
  "is_null a = Some (a = None)"

definition is_not_null :: "'a option \<Rightarrow> sqlbool" where
  "is_not_null a = Some (a \<noteq> None)"

definition sql_where :: "sqlbool \<Rightarrow> bool" where
  "sql_where c = (c = Some True)"

text \<open>
  The \<open>Upload\<close> table and the \<open>employee_dashboard_master\<close> table, with the columns the
  analytics queries read. \<open>DOJ\<close> and \<open>Final LWD\<close> are calendar dates, so
  \<open>date_trunc('day', _)\<close> leaves them as they are. The row id is an integer and
  \<open>uploadedAt\<close> a point on the time line.
\<close>

record upload =
  upload_id :: string
  organizationId :: string
  dashboardMonthId :: "string option"
  uploadedAt :: int

record employee =
  row_id :: int
  uploadId :: string
  New_Emp_ID :: "string option"
  Emp_ID :: "string option"
  Employee_Name :: "string option"
  DOJ :: "date option"
  Final_LWD :: "date option"
  Entity :: "string option"
  Worklevel :: "string option"
  Gender :: "string option"
  CTC :: "real option"
  Age :: "real option"
  Tenure :: "real option"

text \<open>The cast \<open>id::text\<close>: the decimal digits of the integer.\<close>

function text_of_nat :: "nat \<Rightarrow> string" where
  "text_of_nat n =
     (if n < 10 then [char_of (48 + n)]
      else text_of_nat (n div 10) @ [char_of (48 + n mod 10)])"
  by pat_completeness auto
termination
  by (relation "measure (\<lambda>n. n)") auto

definition text_of_int :: "int \<Rightarrow> string" where
  "text_of_int i = (if i < 0 then CHR ''-'' # text_of_nat (nat (- i)) else text_of_nat (nat i))"

section \<open>The snapshot views (\<open>_build_snapshot_cte\<close>)\<close>

text \<open>\<open>COALESCE(ed."New Emp ID", ed."Emp ID", ed.id::text)\<close>.\<close>

definition identity_key :: "employee \<Rightarrow> string" where
  "identity_key ed =
     (case New_Emp_ID ed of
        Some n \<Rightarrow> n
      | None \<Rightarrow> (case Emp_ID ed of Some e \<Rightarrow> e | None \<Rightarrow> text_of_int (row_id ed)))"

text \<open>
  \<open>FROM employee_dashboard_master ed JOIN "Upload" u ON u.id = ed."uploadId"\<close> with the
  optional clauses on the organization and the dashboard month. The parameters are
  \<open>None\<close> when the caller passes \<open>None\<close>; the callers set \<open>filter_org\<close> and
  \<open>filter_month\<close> exactly when the parameter is present.
\<close>

definition org_clause :: "bool \<Rightarrow> string option \<Rightarrow> upload \<Rightarrow> bool" where
  "org_clause filter_org organization_id u =
     (if filter_org then sql_where (sql_cmp (=) (Some (organizationId u)) organization_id)
      else True)"

definition month_clause :: "bool \<Rightarrow> string option \<Rightarrow> upload \<Rightarrow> bool" where
  "month_clause filter_month dashboard_month_id u =
     (if filter_month then sql_where (sql_cmp (=) (dashboardMonthId u) dashboard_month_id)
      else True)"

definition scoped_rows ::
    "bool \<Rightarrow> bool \<Rightarrow> string option \<Rightarrow> string option \<Rightarrow> employee list \<Rightarrow> upload list
      \<Rightarrow> (employee \<times> upload) list" where
  "scoped_rows filter_org filter_month organization_id dashboard_month_id eds ups =
     concat (map (\<lambda>ed. map (\<lambda>u. (ed, u))
       (filter (\<lambda>u. upload_id u = uploadId ed
                    \<and> org_clause filter_org organization_id u
                    \<and> month_clause filter_month dashboard_month_id u) ups)) eds)"

text \<open>
  \<open>ROW_NUMBER() OVER (PARTITION BY part ORDER BY ord)\<close>: every partition is sorted by
  the ordering key and its rows are numbered from 1.
\<close>

fun number_rows :: "nat \<Rightarrow> 'r list \<Rightarrow> ('r \<times> nat) list" where
  "number_rows n [] = []"
| "number_rows n (r # rs) = (r, n) # number_rows (Suc n) rs"

definition row_number_over ::
    "('r \<Rightarrow> 'k) \<Rightarrow> ('r \<Rightarrow> 'o::linorder) \<Rightarrow> 'r list \<Rightarrow> ('r \<times> nat) list" where
  "row_number_over part ord rows =
     concat (map (\<lambda>k. number_rows 1 (sort_key ord (filter (\<lambda>r. part r = k) rows)))
                 (remdups (map part rows)))"

text \<open>\<open>ORDER BY u."uploadedAt" DESC, ed.id DESC\<close>: both columns are negated, so that the
  ascending order of the keys is the descending order of the columns.\<close>

definition ranked_order :: "employee \<times> upload \<Rightarrow> int \<times> int" where
  "ranked_order r = (- uploadedAt (snd r), - row_id (fst r))"

text \<open>\<open>ORDER BY ed."DOJ" ASC NULLS LAST, ed.id ASC\<close>.\<close>

definition joined_first_order :: "employee \<times> upload \<Rightarrow> bool \<times> date \<times> int" where
  "joined_first_order r =
     (DOJ (fst r) = None,
      (case DOJ (fst r) of None \<Rightarrow> Date 0 0 0 | Some d \<Rightarrow> d),
      row_id (fst r))"

definition ranked ::
    "bool \<Rightarrow> bool \<Rightarrow> string option \<Rightarrow> string option \<Rightarrow> employee list \<Rightarrow> upload list
      \<Rightarrow> ((employee \<times> upload) \<times> nat) list" where
  "ranked filter_org filter_month organization_id dashboard_month_id eds ups =
     row_number_over (\<lambda>r. identity_key (fst r)) ranked_order
       (scoped_rows filter_org filter_month organization_id dashboard_month_id eds ups)"

definition joined_first ::
    "bool \<Rightarrow> bool \<Rightarrow> string option \<Rightarrow> string option \<Rightarrow> employee list \<Rightarrow> upload list
      \<Rightarrow> ((employee \<times> upload) \<times> nat) list" where
  "joined_first filter_org filter_month organization_id dashboard_month_id eds ups =
     row_number_over (\<lambda>r. identity_key (fst r)) joined_first_order
       (filter (\<lambda>r. sql_where (is_not_null (DOJ (fst r))))
         (scoped_rows filter_org filter_month organization_id dashboard_month_id eds ups))"

text \<open>
  \<open>latest\<close> keeps the columns of the employee record; \<open>earliest_join\<close> keeps five of
  them (the two ids, the name, \<open>DOJ\<close> and \<open>Entity\<close>), which the whole record determines,
  so the model keeps the record.
\<close>

definition latest ::
    "bool \<Rightarrow> bool \<Rightarrow> string option \<Rightarrow> string option \<Rightarrow> employee list \<Rightarrow> upload list
      \<Rightarrow> employee list" where
  "latest filter_org filter_month organization_id dashboard_month_id eds ups =
     map (\<lambda>x. fst (fst x))
       (filter (\<lambda>x. snd x = 1)
         (ranked filter_org filter_month organization_id dashboard_month_id eds ups))"

definition earliest_join ::
    "bool \<Rightarrow> bool \<Rightarrow> string option \<Rightarrow> string option \<Rightarrow> employee list \<Rightarrow> upload list
      \<Rightarrow> employee list" where
  "earliest_join filter_org filter_month organization_id dashboard_month_id eds ups =
     map (\<lambda>x. fst (fst x))
       (filter (\<lambda>x. snd x = 1 \<and> sql_where (is_not_null (DOJ (fst (fst x)))))
         (joined_first filter_org filter_month organization_id dashboard_month_id eds ups))"

section \<open>Date arithmetic of the database\<close>

text \<open>
  \<open>date_trunc\<close> for the three grains the queries use, on values without a time of day.
\<close>

definition date_trunc :: "granularity \<Rightarrow> date \<Rightarrow> date" where
  "date_trunc grain d =
     (case grain of
        Monthly \<Rightarrow> Date (year d) (month d) 1
      | Quarterly \<Rightarrow> Date (year d) (((month d - 1) div 3) * 3 + 1) 1
      | Yearly \<Rightarrow> Date (year d) 1 1)"

text \<open>
  Adding an interval of whole months (a year is twelve of them): the month and year
  move, and a day beyond the end of the new month becomes its last day.
\<close>

definition pg_add_months :: "date \<Rightarrow> int \<Rightarrow> date" where
  "pg_add_months d n =
     (let t = month d - 1 + n;
          y = year d + t div 12;
          m = t mod 12 + 1
      in Date y m (min (day d) (days_in_month y m)))"

text \<open>Adding \<open>INTERVAL '1 day'\<close>.\<close>

definition pg_next_day :: "date \<Rightarrow> date" where
  "pg_next_day d =
     (if day d < days_in_month (year d) (month d) then Date (year d) (month d) (day d + 1)
      else if month d < 12 then Date (year d) (month d + 1) 1
      else Date (year d + 1) 1 1)"

text \<open>Subtracting \<open>INTERVAL '1 day'\<close>.\<close>

definition pg_prev_day :: "date \<Rightarrow> date" where
  "pg_prev_day d =
     (if 1 < day d then Date (year d) (month d) (day d - 1)
      else if 1 < month d then Date (year d) (month d - 1) (days_in_month (year d) (month d - 1))
      else Date (year d - 1) 12 31)"

text \<open>
  \<open>generate_series(start, stop, step)\<close> with a step of whole months: the current value
  is returned and the step added to it as long as it does not exceed \<open>stop\<close>. The
  queries only use the steps 1, 3 and 12; the database refuses a step of zero and counts
  downwards for a negative one, and the model returns no row for either.
\<close>

function generate_series :: "date \<Rightarrow> date \<Rightarrow> int \<Rightarrow> date list" where
  "generate_series cur stop step =
     (if step \<le> 0 then []
      else if cur \<le> stop then cur # generate_series (pg_add_months cur step) stop step
      else [])"
  by pat_completeness auto
termination
proof (relation "measures [\<lambda>(cur, stop, step). if 1 \<le> month cur \<and> month cur \<le> 12 then 0 else 1,
                           \<lambda>(cur, stop, step). nat (12 * (year stop - year cur) - (month cur - 1) + 12)]")
  show "wf (measures [\<lambda>(cur, stop, step). if 1 \<le> month cur \<and> month cur \<le> 12 then 0 else 1,
                           \<lambda>(cur, stop, step). nat (12 * (year stop - year cur) - (month cur - 1) + 12)])"
    by simp
next
  fix cur stop :: date and step :: int
  assume a: "\<not> step \<le> 0" "cur \<le> stop"
  define t where "t = month cur - 1 + step"
  have nxt: "year (pg_add_months cur step) = year cur + t div 12"
            "month (pg_add_months cur step) = t mod 12 + 1"
    by (simp_all add: pg_add_months_def Let_def t_def)
  have rng: "1 \<le> month (pg_add_months cur step) \<and> month (pg_add_months cur step) \<le> 12"
    unfolding nxt by simp
  have yle: "year cur \<le> year stop"
    using a(2) by (auto simp add: less_eq_date_def date_key_def)
  have dec: "12 * (year stop - year (pg_add_months cur step)) - (month (pg_add_months cur step) - 1)
             = 12 * (year stop - year cur) - (month cur - 1) - step"
    unfolding nxt t_def by (simp add: algebra_simps) 
  show "((pg_add_months cur step, stop, step), (cur, stop, step))
        \<in> measures [\<lambda>(cur, stop, step). if 1 \<le> month cur \<and> month cur \<le> 12 then 0 else 1,
                           \<lambda>(cur, stop, step). nat (12 * (year stop - year cur) - (month cur - 1) + 12)]"
  proof (cases "1 \<le> month cur \<and> month cur \<le> 12")
    case True
    then have "month cur \<le> 12" by simp
    moreover have "0 \<le> 12 * (year stop - year cur)" using yle by simp
    ultimately have "0 < 12 * (year stop - year cur) - (month cur - 1) + 12" by linarith
    then show ?thesis using rng True dec a(1) by simp
  next
    case False
    then show ?thesis using rng by auto
  qed
qed

text \<open>
  Months counted from year 0, and the first day of the month with a given count; used to
  state where the buckets of a series start.
\<close>

definition month_index :: "date \<Rightarrow> int" where
  "month_index d = year d * 12 + month d - 1"

definition first_of_month :: "int \<Rightarrow> date" where
  "first_of_month i = Date (i div 12) (i mod 12 + 1) 1"

section \<open>The headcount series (\<open>_build_manpower_sql\<close>)\<close>

text \<open>The bucket width: \<open>INTERVAL '1 month'\<close>, \<open>'3 months'\<close> or \<open>'1 year'\<close>, in months.\<close>

definition step_months :: "granularity \<Rightarrow> int" where
  "step_months g = (case g of Monthly \<Rightarrow> 1 | Quarterly \<Rightarrow> 3 | Yearly \<Rightarrow> 12)"

text \<open>
  \<open>AND ed."Entity" = ANY(%(entities)s)\<close>, present when \<open>filter_entities\<close> is set. The
  list holds the non-empty names the caller passed, so it has no \<open>NULL\<close> element.
\<close>

definition entity_clause :: "bool \<Rightarrow> string list \<Rightarrow> employee \<Rightarrow> sqlbool" where
  "entity_clause filter_entities entities ed =
     (if filter_entities
      then (case Entity ed of None \<Rightarrow> None | Some e \<Rightarrow> Some (e \<in> set entities))
      else Some True)"

text \<open>The condition of the \<open>actuals\<close> subquery for the bucket starting at \<open>period_start\<close>.\<close>

definition manpower_condition ::
    "bool \<Rightarrow> string list \<Rightarrow> int \<Rightarrow> date \<Rightarrow> employee \<Rightarrow> sqlbool" where
  "manpower_condition filter_entities entities step s ed =
     sql_and
       (sql_and
         (sql_and (is_not_null (DOJ ed)) (sql_cmp (\<le>) (DOJ ed) (Some s)))
         (sql_or (is_null (Final_LWD ed))
                 (sql_cmp (\<ge>) (Final_LWD ed) (Some (pg_add_months s step)))))
       (entity_clause filter_entities entities ed)"

definition manpower_headcount ::
    "bool \<Rightarrow> string list \<Rightarrow> int \<Rightarrow> employee list \<Rightarrow> date \<Rightarrow> int" where
  "manpower_headcount filter_entities entities step latest_rows s =
     int (length (filter (\<lambda>ed. sql_where (manpower_condition filter_entities entities step s ed))
                         latest_rows))"

text \<open>\<open>LAG(headcount) OVER (ORDER BY period_start)\<close> on rows already in that order: the
  headcount of the row before, and \<open>NULL\<close> for the first row.\<close>

fun lag_headcount :: "int option \<Rightarrow> (date \<times> int) list \<Rightarrow> (date \<times> int \<times> int option) list" where
  "lag_headcount prev [] = []"
| "lag_headcount prev ((p, h) # rows) = (p, h, prev) # lag_headcount (Some h) rows"

record manpower_point =
  period_start :: date
  headcount :: int
  opening_headcount :: int
  ramp_change :: int
  ramp_pct :: real

definition manpower_select :: "date \<times> int \<times> int option \<Rightarrow> manpower_point" where
  "manpower_select e =
     (case e of (p, h, opening) \<Rightarrow>
        \<lparr>period_start = p,
         headcount = h,
         opening_headcount = (case opening of None \<Rightarrow> 0 | Some v \<Rightarrow> v),
         ramp_change = h - (case opening of None \<Rightarrow> 0 | Some v \<Rightarrow> v),
         ramp_pct = (case opening of
                       None \<Rightarrow> 0
                     | Some v \<Rightarrow> if v = 0 then 0 else of_int (h - v) / of_int v)\<rparr>)"

definition build_manpower_sql ::
    "granularity \<Rightarrow> bool \<Rightarrow> bool \<Rightarrow> bool \<Rightarrow> date \<Rightarrow> date \<Rightarrow> string list
      \<Rightarrow> string option \<Rightarrow> string option \<Rightarrow> employee list \<Rightarrow> upload list
      \<Rightarrow> manpower_point list" where
  "build_manpower_sql g filter_entities filter_org filter_month start end entities
       organization_id dashboard_month_id eds ups =
     (let latest_rows = latest filter_org filter_month organization_id dashboard_month_id eds ups;
          step = step_months g;
          start_period = date_trunc g start;
          end_period = date_trunc g end;
          series = generate_series (pg_add_months start_period (- step)) end_period step;
          actuals = map (\<lambda>s. (s, manpower_headcount filter_entities entities step latest_rows s))
                        series;
          enriched = lag_headcount None (sort_key fst actuals)
      in map manpower_select
           (sort_key fst (filter (\<lambda>e. start_period \<le> fst e) enriched)))"

text \<open>
  A point of the series in the words of the specification, for the bucket starting at
  \<open>s\<close>, a bucket width of \<open>k\<close> months and a headcount function \<open>hc\<close> on bucket starts:
  the opening headcount is the headcount of the bucket that starts \<open>k\<close> months earlier.
\<close>

definition spec_ramp_point :: "(date \<Rightarrow> int) \<Rightarrow> int \<Rightarrow> date \<Rightarrow> manpower_point" where
  "spec_ramp_point hc k s =
     \<lparr>period_start = s,
      headcount = hc s,
      opening_headcount = hc (pg_add_months s (- k)),
      ramp_change = hc s - hc (pg_add_months s (- k)),
      ramp_pct = (if hc (pg_add_months s (- k)) = 0 then 0
                  else of_int (hc s - hc (pg_add_months s (- k)))
                       / of_int (hc (pg_add_months s (- k))))\<rparr>"

section \<open>Demographics (\<open>_build_demographics_sql\<close>, \<open>demographics_overview\<close>)\<close>

definition demographics_range_clause :: "bool \<Rightarrow> date \<Rightarrow> date \<Rightarrow> date \<Rightarrow> employee \<Rightarrow> sqlbool" where
  "demographics_range_clause apply_range start end cutoff ed =
     (if apply_range
      then sql_and (sql_cmp (\<le>) (DOJ ed) (Some end))
                   (sql_or (is_null (Final_LWD ed)) (sql_cmp (\<ge>) (Final_LWD ed) (Some start)))
      else sql_and (sql_cmp (\<le>) (DOJ ed) (Some cutoff))
                   (sql_or (is_null (Final_LWD ed)) (sql_cmp (<) (Some cutoff) (Final_LWD ed))))"

definition demographics_condition ::
    "bool \<Rightarrow> bool \<Rightarrow> string list \<Rightarrow> date \<Rightarrow> date \<Rightarrow> date \<Rightarrow> employee \<Rightarrow> sqlbool" where
  "demographics_condition filter_entities apply_range entities start end cutoff ed =
     sql_and
       (sql_and (is_not_null (DOJ ed)) (demographics_range_clause apply_range start end cutoff ed))
       (entity_clause filter_entities entities ed)"

text \<open>The \<open>active\<close> rows of the demographics query.\<close>

definition demographics_active ::
    "bool \<Rightarrow> bool \<Rightarrow> string list \<Rightarrow> date \<Rightarrow> date \<Rightarrow> date \<Rightarrow> employee list \<Rightarrow> employee list" where
  "demographics_active filter_entities apply_range entities start end cutoff latest_rows =
     filter (\<lambda>ed. sql_where
               (demographics_condition filter_entities apply_range entities start end cutoff ed))
            latest_rows"












text \<open>
  The three rules of activity in the words of the specification: survival of the whole
  bucket \<open>[T, T+W)\<close>, activity on a cutoff date, and activity at some point of a range.
\<close>

definition spec_active_whole_bucket :: "date \<Rightarrow> date \<Rightarrow> employee \<Rightarrow> bool" where
  "spec_active_whole_bucket t t_plus_w ed =
     (case DOJ ed of
        None \<Rightarrow> False
      | Some d \<Rightarrow> d \<le> t \<and> (case Final_LWD ed of None \<Rightarrow> True | Some l \<Rightarrow> t_plus_w \<le> l))"

definition spec_active_on_cutoff :: "date \<Rightarrow> employee \<Rightarrow> bool" where
  "spec_active_on_cutoff cutoff ed =
     (case DOJ ed of
        None \<Rightarrow> False
      | Some d \<Rightarrow> d \<le> cutoff \<and> (case Final_LWD ed of None \<Rightarrow> True | Some l \<Rightarrow> cutoff < l))"

definition spec_active_in_range :: "date \<Rightarrow> date \<Rightarrow> employee \<Rightarrow> bool" where
  "spec_active_in_range start end ed =
     (case DOJ ed of
        None \<Rightarrow> False
      | Some d \<Rightarrow> d \<le> end \<and> (case Final_LWD ed of None \<Rightarrow> True | Some l \<Rightarrow> start \<le> l))"

definition spec_entity_selected :: "bool \<Rightarrow> string list \<Rightarrow> employee \<Rightarrow> bool" where
  "spec_entity_selected filter_entities entities ed =
     (if filter_entities
      then (case Entity ed of None \<Rightarrow> False | Some e \<Rightarrow> e \<in> set entities)
      else True)"

section \<open>Fiscal-year windows (\<open>params\<close> and \<open>year_bounds\<close> of the attrition queries)\<close>

text \<open>The first of April on or before the cutoff.\<close>

definition current_fy_start :: "date \<Rightarrow> date" where
  "current_fy_start cutoff =
     (if 4 \<le> month cutoff then Date (year cutoff) 4 1 else Date (year cutoff - 1) 4 1)"

text \<open>
  \<open>age(dt1, dt2)\<close> as years, months and days: the fields are subtracted one by one, a
  negative day count borrows the length of the month of the earlier date, a negative
  month count borrows a year, and the sign is that of the difference. On calendar dates
  each borrow happens at most once.
\<close>

definition pg_age :: "date \<Rightarrow> date \<Rightarrow> int \<times> int \<times> int" where
  "pg_age dt1 dt2 =
     (let sgn = (if dt1 < dt2 then - 1 else 1);
          earlier = (if dt1 < dt2 then dt1 else dt2);
          d0 = sgn * (day dt1 - day dt2);
          m0 = sgn * (month dt1 - month dt2);
          y0 = sgn * (year dt1 - year dt2);
          d1 = (if d0 < 0 then d0 + days_in_month (year earlier) (month earlier) else d0);
          m1 = (if d0 < 0 then m0 - 1 else m0);
          m2 = (if m1 < 0 then m1 + 12 else m1);
          y2 = (if m1 < 0 then y0 - 1 else y0)
      in (sgn * y2, sgn * m2, sgn * d1))"

record year_bound =
  year_start :: date
  year_end :: date
  fy_year_end :: date
  yb_months_covered :: int

text \<open>One row of \<open>year_bounds\<close>, for an offset of \<open>generate_series(-3, 0)\<close>.\<close>

definition year_bound_of :: "date \<Rightarrow> int \<Rightarrow> year_bound" where
  "year_bound_of cutoff off =
     (let ys = pg_add_months (current_fy_start cutoff) (12 * off);
          fye = pg_add_months (current_fy_start cutoff) (12 * (off + 1));
          ye = min fye (pg_next_day cutoff);
          a = pg_age ye ys
      in \<lparr>year_start = ys, year_end = ye, fy_year_end = fye,
          yb_months_covered =
            max 1 (min 12 (fst a * 12 + fst (snd a) + (if 0 < snd (snd a) then 1 else 0)))\<rparr>)"

definition year_bounds :: "date \<Rightarrow> year_bound list" where
  "year_bounds cutoff = map (year_bound_of cutoff) [-3, -2, -1, 0]"

text \<open>\<open>TO_CHAR(d, 'YY')\<close> for a year of the Common Era: its last two digits.\<close>

definition to_char_yy :: "date \<Rightarrow> string" where
  "to_char_yy d =
     [char_of (48 + nat (year d mod 100) div 10), char_of (48 + nat (year d mod 100) mod 10)]"

text \<open>The \<open>label\<close> column of the attrition queries.\<close>

definition fy_label :: "year_bound \<Rightarrow> string" where
  "fy_label y =
     (if year_end y < fy_year_end y then ''YTD FY'' @ to_char_yy (fy_year_end y)
      else ''FY'' @ to_char_yy (fy_year_end y))"

section \<open>Tenure buckets (\<open>_build_tenure_sql\<close>)\<close>

text \<open>Integer expressions that may be \<open>NULL\<close>; \<open>GREATEST\<close> skips \<open>NULL\<close> arguments.\<close>

definition sql_arith :: "(int \<Rightarrow> int \<Rightarrow> int) \<Rightarrow> int option \<Rightarrow> int option \<Rightarrow> int option" where
  "sql_arith f a b =
     (case a of None \<Rightarrow> None
      | Some x \<Rightarrow> (case b of None \<Rightarrow> None | Some y \<Rightarrow> Some (f x y)))"

definition sql_greatest :: "int option \<Rightarrow> int option \<Rightarrow> int option" where
  "sql_greatest a b =
     (case a of None \<Rightarrow> b
      | Some x \<Rightarrow> (case b of None \<Rightarrow> Some x | Some y \<Rightarrow> Some (max x y)))"

text \<open>\<open>tenure_months_expr(ref)\<close>, with \<open>EXTRACT\<close> of a \<open>NULL\<close> date being \<open>NULL\<close>.\<close>

definition tenure_months_expr :: "date option \<Rightarrow> date option \<Rightarrow> int option" where
  "tenure_months_expr ref doj =
     sql_greatest
       (sql_arith (+)
         (sql_arith (+)
           (sql_arith (*) (sql_arith (-) (map_option year ref) (map_option year doj)) (Some 12))
           (sql_arith (-) (map_option month ref) (map_option month doj)))
         (Some (if sql_where (sql_cmp (\<ge>) (map_option day ref) (map_option day doj))
                then 0 else - 1)))
       (Some 0)"

definition buckets :: "(string \<times> int \<times> int option) list" where
  "buckets =
     [(''zero_six'', 0, Some 6),
      (''six_twelve'', 6, Some 12),
      (''one_two'', 12, Some 24),
      (''two_four'', 24, Some 48),
      (''four_ten'', 48, Some 120),
      (''ten_plus'', 120, None)]"

text \<open>\<open>bucket_clause\<close>: the base condition, the lower bound and, if there is one, the
  upper bound, joined by \<open>AND\<close>.\<close>

definition bucket_clause ::
    "sqlbool \<Rightarrow> date option \<Rightarrow> int \<Rightarrow> int option \<Rightarrow> employee \<Rightarrow> sqlbool" where
  "bucket_clause base_condition ref lower upper ed =
     (let expr = tenure_months_expr ref (DOJ ed);
          clauses = sql_and base_condition (sql_cmp (\<ge>) expr (Some lower))
      in case upper of
           None \<Rightarrow> clauses
         | Some u \<Rightarrow> sql_and clauses (sql_cmp (<) expr (Some u)))"

definition start_condition :: "year_bound \<Rightarrow> employee \<Rightarrow> sqlbool" where
  "start_condition y ed =
     sql_and
       (sql_and (is_not_null (DOJ ed)) (sql_cmp (<) (DOJ ed) (Some (year_start y))))
       (sql_or (is_null (Final_LWD ed)) (sql_cmp (\<ge>) (Final_LWD ed) (Some (year_start y))))"

definition end_condition :: "year_bound \<Rightarrow> employee \<Rightarrow> sqlbool" where
  "end_condition y ed =
     sql_and
       (sql_and (is_not_null (DOJ ed)) (sql_cmp (<) (DOJ ed) (Some (year_end y))))
       (sql_or (is_null (Final_LWD ed)) (sql_cmp (\<ge>) (Final_LWD ed) (Some (year_end y))))"

definition exit_condition :: "year_bound \<Rightarrow> employee \<Rightarrow> sqlbool" where
  "exit_condition y ed =
     sql_and
       (sql_and (is_not_null (Final_LWD ed)) (sql_cmp (\<ge>) (Final_LWD ed) (Some (year_start y))))
       (sql_cmp (<) (Final_LWD ed) (Some (year_end y)))"

definition monthly_condition :: "date \<Rightarrow> employee \<Rightarrow> sqlbool" where
  "monthly_condition month_end ed =
     sql_and
       (sql_and (is_not_null (DOJ ed)) (sql_cmp (\<le>) (DOJ ed) (Some month_end)))
       (sql_or (is_null (Final_LWD ed)) (sql_cmp (>) (Final_LWD ed) (Some month_end)))"

text \<open>The four \<open>COUNT(*) FILTER (...)\<close> columns of one bucket, over the joined rows of
  \<open>latest\<close>: at the start and at the end of a window, the exits of the window, and at
  the end of one month of the window.\<close>

definition count_filter :: "(employee \<Rightarrow> sqlbool) \<Rightarrow> employee list \<Rightarrow> int" where
  "count_filter c rows = int (length (filter (\<lambda>ed. sql_where (c ed)) rows))"

definition tenure_start_count :: "string \<times> int \<times> int option \<Rightarrow> year_bound \<Rightarrow> employee list \<Rightarrow> int" where
  "tenure_start_count b y rows =
     count_filter (\<lambda>ed. bucket_clause (start_condition y ed) (Some (year_start y))
                          (fst (snd b)) (snd (snd b)) ed) rows"

definition tenure_end_count :: "string \<times> int \<times> int option \<Rightarrow> year_bound \<Rightarrow> employee list \<Rightarrow> int" where
  "tenure_end_count b y rows =
     count_filter (\<lambda>ed. bucket_clause (end_condition y ed) (Some (year_end y))
                          (fst (snd b)) (snd (snd b)) ed) rows"

definition tenure_exit_count :: "string \<times> int \<times> int option \<Rightarrow> year_bound \<Rightarrow> employee list \<Rightarrow> int" where
  "tenure_exit_count b y rows =
     count_filter (\<lambda>ed. bucket_clause (exit_condition y ed) (Final_LWD ed)
                          (fst (snd b)) (snd (snd b)) ed) rows"

definition tenure_month_count :: "string \<times> int \<times> int option \<Rightarrow> date \<Rightarrow> employee list \<Rightarrow> int" where
  "tenure_month_count b month_end rows =
     count_filter (\<lambda>ed. bucket_clause (monthly_condition month_end ed) (Some month_end)
                          (fst (snd b)) (snd (snd b)) ed) rows"

text \<open>
  Months of tenure in the words of the specification: whole months from the join date
  to the reference date, one less when the day of the reference date is before the day
  of the join date, and at least 0. A bucket holds the counts from its lower bound up to,
  but not including, its upper bound.
\<close>

definition spec_tenure_months :: "date \<Rightarrow> date \<Rightarrow> int" where
  "spec_tenure_months ref doj =
     max 0 ((year ref - year doj) * 12 + (month ref - month doj)
            - (if day ref < day doj then 1 else 0))"

definition in_bucket :: "string \<times> int \<times> int option \<Rightarrow> int \<Rightarrow> bool" where
  "in_bucket b n =
     (fst (snd b) \<le> n \<and> (case snd (snd b) of None \<Rightarrow> True | Some u \<Rightarrow> n < u))"

section \<open>Scope resolution (\<open>_resolve_org_month_scope\<close>)\<close>




text \<open>A small instance of the two tables: two uploads of one organization, the second
  one later, and three employee records, two of them of the same person.\<close>

definition example_uploads :: "upload list" where
  "example_uploads =
     [\<lparr>upload_id = ''u1'', organizationId = ''org'', dashboardMonthId = Some ''m1'', uploadedAt = 10\<rparr>,
      \<lparr>upload_id = ''u2'', organizationId = ''org'', dashboardMonthId = Some ''m2'', uploadedAt = 20\<rparr>]"

definition example_employee ::
    "int \<Rightarrow> string \<Rightarrow> string option \<Rightarrow> date option \<Rightarrow> date option \<Rightarrow> string option \<Rightarrow> employee" where
  "example_employee i u n d l g =
     \<lparr>row_id = i, uploadId = u, New_Emp_ID = n, Emp_ID = None, Employee_Name = None,
      DOJ = d, Final_LWD = l, Entity = None, Worklevel = None, Gender = g,
      CTC = None, Age = None, Tenure = None\<rparr>"

definition example_leaver :: employee where
  "example_leaver =
     example_employee 2 ''u2'' (Some ''E1'') (Some (Date 2020 1 15)) (Some (Date 2024 2 10))
       (Some ''Female'')"

definition example_joiner :: employee where
  "example_joiner = example_employee 3 ''u2'' None (Some (Date 2023 11 20)) None (Some ''male'')"

definition example_employees :: "employee list" where
  "example_employees =
     [example_employee 1 ''u1'' (Some ''E1'') (Some (Date 2020 1 15)) None (Some ''Female''),
      example_leaver, example_joiner]"

section \<open>Attrition post-processing (\<open>attrition_overview\<close>)\<close>

text \<open>
  \<open>_months_covered\<close>: \<open>float(row.get("months_covered"))\<close>, with 12.0 when the conversion
  raises \<open>TypeError\<close> or \<open>ValueError\<close> or the value is not positive, capped at 12.0.
\<close>

definition months_covered :: "row \<Rightarrow> real" where
  "months_covered r =
     (let raw_months = row_get r ''months_covered'' in
      case py_float raw_months of
        Inl e \<Rightarrow> 12
      | Inr months_value \<Rightarrow>
          if months_value \<le> 0 then 12
          else if 12 < months_value then 12 else months_value)"

text \<open>
  \<open>_average_headcount\<close>. \<open>monthly_sum_key\<close> is \<open>str | None\<close>; the test
  \<open>if monthly_sum_key:\<close> fails for \<open>None\<close> and for the empty string.
\<close>

definition average_headcount :: "row \<Rightarrow> string \<Rightarrow> string \<Rightarrow> string option \<Rightarrow> error + real" where
  "average_headcount r start_key end_key monthly_sum_key =
     (let start = or_zero (row_get r start_key);
          end = or_zero (row_get r end_key)
      in case py_add start end of
           Inl e \<Rightarrow> Inl e
         | Inr summed \<Rightarrow>
            (case py_truediv summed 2 of
               Inl e \<Rightarrow> Inl e
             | Inr base_avg \<Rightarrow>
                (case monthly_sum_key of
                   None \<Rightarrow> Inr base_avg
                 | Some k \<Rightarrow>
                     if k = [] then Inr base_avg
                     else
                       let months = months_covered r;
                           monthly_sum = row_get r k;
                           monthly_value = (case py_float monthly_sum of Inl e \<Rightarrow> 0 | Inr v \<Rightarrow> v)
                       in if 0 < monthly_value \<and> 0 < months
                          then Inr (monthly_value / months)
                          else Inr base_avg)))"

text \<open>
  \<open>_attrition\<close>: \<open>float(exits) / denom if denom else 0.0\<close>. The condition is evaluated
  first, so \<open>float(exits)\<close> is only computed for a non-zero denominator.
\<close>

definition attrition :: "row \<Rightarrow> string \<Rightarrow> string \<Rightarrow> string \<Rightarrow> string option \<Rightarrow> error + real" where
  "attrition r start_key end_key exit_key monthly_sum_key =
     (let exits = or_zero (row_get r exit_key) in
      case average_headcount r start_key end_key monthly_sum_key of
        Inl e \<Rightarrow> Inl e
      | Inr denom \<Rightarrow>
          if denom \<noteq> 0
          then (case py_float exits of Inl e \<Rightarrow> Inl e | Inr x \<Rightarrow> Inr (x / denom))
          else Inr 0)"

text \<open>
  \<open>_annualized_attrition\<close>. The division \<open>12.0 / months\<close> raises \<open>ZeroDivisionError\<close>
  in Python when \<open>months\<close> is zero; the model keeps that branch.
\<close>

definition annualized_attrition ::
    "row \<Rightarrow> string \<Rightarrow> string \<Rightarrow> string \<Rightarrow> string option \<Rightarrow> error + real" where
  "annualized_attrition r start_key end_key exit_key monthly_sum_key =
     (case attrition r start_key end_key exit_key monthly_sum_key of
        Inl e \<Rightarrow> Inl e
      | Inr rate \<Rightarrow>
          let months = months_covered r in
          if 12 \<le> months then Inr rate
          else if months = 0 then Inl ZeroDivisionError
          else Inr (rate * (12 / months)))"

text \<open>
  The attrition arithmetic in the words of the specification, for comparison with the
  functions above: the denominator rule, the raw rate and the annualized rate.
\<close>

definition spec_denominator :: "real \<Rightarrow> int \<Rightarrow> int \<Rightarrow> int \<Rightarrow> real" where
  "spec_denominator monthly_sum months headcount_start headcount_end =
     (if 0 < monthly_sum \<and> 0 < months then monthly_sum / of_int months
      else (of_int headcount_start + of_int headcount_end) / 2)"

definition spec_raw_rate :: "int \<Rightarrow> real \<Rightarrow> real" where
  "spec_raw_rate exits denominator = (if denominator = 0 then 0 else of_int exits / denominator)"

definition spec_annualized_rate :: "real \<Rightarrow> int \<Rightarrow> real" where
  "spec_annualized_rate raw_rate months =
     (if 12 \<le> months then raw_rate else raw_rate * (12 / of_int months))"

section \<open>Verified properties\<close>

subsection \<open>Arithmetic of months and days\<close>

lemma div12_range:
  "(1::int) \<le> m \<Longrightarrow> m \<le> 12 \<Longrightarrow> -48 \<le> k \<Longrightarrow> k \<le> 0 \<Longrightarrow>
     -4 \<le> (m - 1 + k) div 12 \<and> (m - 1 + k) div 12 \<le> 0"
  by linarith

lemma mod12_range: "1 \<le> (x::int) mod 12 + 1 \<and> x mod 12 + 1 \<le> 12"
  by simp

lemma quarter_month_range:
  assumes "(1::int) \<le> m" "m \<le> 12"
  shows "1 \<le> (m - 1) div 3 * 3 + 1 \<and> (m - 1) div 3 * 3 + 1 \<le> 12"
proof -
  have "0 \<le> (m - 1) div 3 \<and> (m - 1) div 3 \<le> 3" using assms by linarith
  then show ?thesis by linarith
qed

lemma dim_bounds: "28 \<le> days_in_month y m \<and> days_in_month y m \<le> 31"
  by (simp add: days_in_month_def)

subsection \<open>Period resolution\<close>

lemma shift_months_ok:
  assumes "1 \<le> month v" "month v \<le> 12" "day v = 1" "5 \<le> year v" "year v \<le> 9999"
    and "-48 \<le> k" "k \<le> 0"
  shows "\<exists>d. shift_months v k = Inr d"
proof -
  define y where "y = year v + (month v - 1 + k) div 12"
  define m where "m = (month v - 1 + k) mod 12 + 1"
  have y: "1 \<le> y \<and> y \<le> 9999"
    using div12_range[OF assms(1,2,6,7)] assms(4,5) unfolding y_def by linarith
  have m: "1 \<le> m \<and> m \<le> 12" unfolding m_def by (rule mod12_range)
  have d: "min 1 (days_in_month y m) = 1" using dim_bounds[of y m] by simp
  have "shift_months v k = py_date y m 1"
    using d assms(3) by (simp add: shift_months_def Let_def y_def m_def)
  moreover have "py_date y m 1 = Inr (Date y m 1)"
    using y m dim_bounds[of y m] by (simp add: py_date_def valid_date_def)
  ultimately show ?thesis by simp
qed

lemma start_default_ok:
  assumes "valid_date today" "10 \<le> year today"
  shows "\<exists>d. (case g of
              Monthly \<Rightarrow> shift_months (floor_funcs g today) (step_lookup g)
            | Quarterly \<Rightarrow> shift_months (floor_funcs g today) (step_lookup g * 3)
            | Yearly \<Rightarrow> py_date (year (floor_funcs g today) + step_lookup g)
                         (month (floor_funcs g today)) (day (floor_funcs g today))) = Inr d"
proof (cases g)
  case Monthly
  have "\<exists>d. shift_months (month_floor today) (-11) = Inr d"
    using assms by (intro shift_months_ok) (simp_all add: month_floor_def valid_date_def)
  then show ?thesis using Monthly
    by (simp add: floor_funcs_def step_lookup_def)
next
  case Quarterly
  have "\<exists>d. shift_months (quarter_floor today) (-45) = Inr d"
    using assms quarter_month_range[of "month today"]
    by (intro shift_months_ok) (simp_all add: quarter_floor_def valid_date_def)
  then show ?thesis using Quarterly
    by (simp add: floor_funcs_def step_lookup_def)
next
  case Yearly
  then show ?thesis using assms
    by (simp add: floor_funcs_def step_lookup_def year_floor_def valid_date_def
        py_date_def days_in_month_def)
qed

text \<open>
  Claim C8. With both bounds supplied, \<open>_resolve_period\<close> raises the HTTP 400 error
  "End date must be after start date." exactly when the end lies before the start, and
  otherwise returns the two dates unchanged; equal dates are accepted. The hypotheses on
  \<open>today\<close> keep the default window, which the function computes first, inside the range
  of \<open>datetime.date\<close>.
\<close>

theorem resolve_period_explicit_range:
  assumes "valid_date today" "10 \<le> year today"
  shows "resolve_period today g (Some s) (Some e) =
     (if e < s then Inl (HTTPException 400 ''End date must be after start date.'')
      else Inr \<lparr>pstart = s, pend = e\<rparr>)"
proof -
  obtain d where "(case g of
              Monthly \<Rightarrow> shift_months (floor_funcs g today) (step_lookup g)
            | Quarterly \<Rightarrow> shift_months (floor_funcs g today) (step_lookup g * 3)
            | Yearly \<Rightarrow> py_date (year (floor_funcs g today) + step_lookup g)
                         (month (floor_funcs g today)) (day (floor_funcs g today))) = Inr d"
    using start_default_ok[OF assms] by blast
  then show ?thesis by (simp add: resolve_period_def Let_def)
qed

theorem resolve_period_explicit_range_witness:
  "resolve_period (Date 2026 11 4) Monthly (Some (Date 2024 3 1)) (Some (Date 2024 3 1))
     = Inr \<lparr>pstart = Date 2024 3 1, pend = Date 2024 3 1\<rparr>
   \<and> resolve_period (Date 2026 11 4) Quarterly (Some (Date 2024 3 2)) (Some (Date 2024 3 1))
     = Inl (HTTPException 400 ''End date must be after start date.'')"
proof -
  have v: "valid_date (Date 2026 11 4)" by (simp add: valid_date_def days_in_month_def)
  have y: "10 \<le> year (Date 2026 11 4)" by simp
  have lt: "Date 2024 3 1 < Date 2024 3 2" by (simp add: less_date_def date_key_def)
  show ?thesis
    using resolve_period_explicit_range[OF v y, of Monthly "Date 2024 3 1" "Date 2024 3 1"]
      resolve_period_explicit_range[OF v y, of Quarterly "Date 2024 3 2" "Date 2024 3 1"] lt
    by simp
qed

subsection \<open>Month keys\<close>



subsection \<open>Attrition post-processing\<close>




text \<open>
  Claim C3. For a row of a fiscal window (\<open>months_covered\<close> is an integer from 1 to 12,
  the three counts are integers, the monthly sum is a float): \<open>_average_headcount\<close>
  returns the monthly sum divided by the months covered when the sum is positive and the
  months are positive, and the mean of the opening and closing headcount otherwise;
  \<open>_attrition\<close> returns exits over that denominator, and 0 for a zero denominator;
  \<open>_annualized_attrition\<close> returns the raw rate for 12 months or more and the raw rate
  times 12 over the months otherwise. For 12 months the annualized rate is the raw rate.
\<close>

theorem attrition_denominator_and_annualization:
  assumes "r ''months_covered'' = Some (PyInt m)" "1 \<le> m" "m \<le> 12"
    and "r start_key = Some (PyInt hs)"
    and "r end_key = Some (PyInt he)"
    and "r exit_key = Some (PyInt ex)"
    and "r sum_key = Some (PyFloat s)" "sum_key \<noteq> []"
  shows "average_headcount r start_key end_key (Some sum_key) = Inr (spec_denominator s m hs he)
    \<and> attrition r start_key end_key exit_key (Some sum_key)
        = Inr (spec_raw_rate ex (spec_denominator s m hs he))
    \<and> annualized_attrition r start_key end_key exit_key (Some sum_key)
        = Inr (spec_annualized_rate (spec_raw_rate ex (spec_denominator s m hs he)) m)
    \<and> (m = 12 \<longrightarrow> annualized_attrition r start_key end_key exit_key (Some sum_key)
        = attrition r start_key end_key exit_key (Some sum_key))"
proof -
  have mc: "months_covered r = of_int m"
    using assms(1-3) by (simp add: months_covered_def row_get_def)
  have sum2: "py_add (or_zero (PyInt hs)) (or_zero (PyInt he)) = Inr (PyInt (hs + he))"
    by (simp add: or_zero_def)
  have avg: "average_headcount r start_key end_key (Some sum_key)
      = Inr (spec_denominator s m hs he)"
    using assms mc sum2
    by (simp add: average_headcount_def row_get_def spec_denominator_def Let_def)
  have exf: "py_float (or_zero (PyInt ex)) = Inr (of_int ex)"
    by (simp add: or_zero_def)
  have att: "attrition r start_key end_key exit_key (Some sum_key)
      = Inr (spec_raw_rate ex (spec_denominator s m hs he))"
    using avg assms(6) exf by (simp add: attrition_def row_get_def spec_raw_rate_def Let_def)
  have ann: "annualized_attrition r start_key end_key exit_key (Some sum_key)
      = Inr (spec_annualized_rate (spec_raw_rate ex (spec_denominator s m hs he)) m)"
    using att mc assms(2)
    by (simp add: annualized_attrition_def spec_annualized_rate_def Let_def)
  have eq12: "m = 12 \<longrightarrow> annualized_attrition r start_key end_key exit_key (Some sum_key)
        = attrition r start_key end_key exit_key (Some sum_key)"
    using ann att by (simp add: spec_annualized_rate_def)
  show ?thesis using avg att ann eq12 by blast
qed

text \<open>The specification's scaling example: 6 months, 3 exits, a monthly sum of 60.\<close>

theorem attrition_denominator_and_annualization_witness:
  "average_headcount
      [''months_covered'' \<mapsto> PyInt 6, ''headcount_start'' \<mapsto> PyInt 9,
       ''headcount_end'' \<mapsto> PyInt 11, ''exits'' \<mapsto> PyInt 3,
       ''monthly_headcount_sum'' \<mapsto> PyFloat 60]
      ''headcount_start'' ''headcount_end'' (Some ''monthly_headcount_sum'') = Inr 10
   \<and> annualized_attrition
      [''months_covered'' \<mapsto> PyInt 6, ''headcount_start'' \<mapsto> PyInt 9,
       ''headcount_end'' \<mapsto> PyInt 11, ''exits'' \<mapsto> PyInt 3,
       ''monthly_headcount_sum'' \<mapsto> PyFloat 60]
      ''headcount_start'' ''headcount_end'' ''exits'' (Some ''monthly_headcount_sum'') = Inr (6 / 10)"
  using attrition_denominator_and_annualization
    [of "[''months_covered'' \<mapsto> PyInt 6, ''headcount_start'' \<mapsto> PyInt 9,
       ''headcount_end'' \<mapsto> PyInt 11, ''exits'' \<mapsto> PyInt 3,
       ''monthly_headcount_sum'' \<mapsto> PyFloat 60]" 6
       "''headcount_start''" 9 "''headcount_end''" 11 "''exits''" 3
       "''monthly_headcount_sum''" 60]
  by (simp add: spec_denominator_def spec_raw_rate_def spec_annualized_rate_def)



subsection \<open>The snapshot views\<close>

lemma number_rows_later:
  "Suc 0 < n \<Longrightarrow> filter (\<lambda>x. snd x = Suc 0 \<and> Q (fst x)) (number_rows n xs) = []"
  by (induction xs arbitrary: n) auto

lemma number_rows_first:
  "map fst (filter (\<lambda>x. snd x = Suc 0 \<and> Q (fst x)) (number_rows (Suc 0) xs)) = filter Q (take (Suc 0) xs)"
  by (cases xs) (auto simp add: number_rows_later)

lemma first_rows_concat:
  "map fst (filter (\<lambda>x. snd x = 1 \<and> Q (fst x)) (row_number_over part ord rows))
     = concat (map (\<lambda>k. filter Q (take 1 (sort_key ord (filter (\<lambda>r. part r = k) rows))))
                   (remdups (map part rows)))"
  unfolding row_number_over_def
  by (simp add: number_rows_first filter_concat map_concat comp_def)

lemma filter_concat_partition:
  assumes "distinct ks" "\<And>k' x. k' \<in> set ks \<Longrightarrow> x \<in> set (f k') \<Longrightarrow> part x = k'"
  shows "filter (\<lambda>x. part x = k) (concat (map f ks)) = (if k \<in> set ks then f k else [])"
  using assms
proof (induction ks)
  case Nil
  then show ?case by simp
next
  case (Cons a ks)
  have head: "filter (\<lambda>x. part x = k) (f a) = (if a = k then f a else [])"
    using Cons.prems(2)[of a] by (auto simp add: filter_empty_conv)
  have tail: "filter (\<lambda>x. part x = k) (concat (map f ks)) = (if k \<in> set ks then f k else [])"
    using Cons by simp
  show ?case using head tail Cons.prems(1) by auto
qed

lemma first_rows_of_key:
  "filter (\<lambda>r. part r = k)
     (map fst (filter (\<lambda>x. snd x = 1 \<and> Q (fst x)) (row_number_over part ord rows)))
   = (if k \<in> part ` set rows
      then filter Q (take 1 (sort_key ord (filter (\<lambda>r. part r = k) rows)))
      else [])"
proof -
  have "filter (\<lambda>r. part r = k)
          (concat (map (\<lambda>k. filter Q (take 1 (sort_key ord (filter (\<lambda>r. part r = k) rows))))
                       (remdups (map part rows))))
        = (if k \<in> set (remdups (map part rows))
           then filter Q (take 1 (sort_key ord (filter (\<lambda>r. part r = k) rows))) else [])"
  proof (rule filter_concat_partition)
    show "distinct (remdups (map part rows))" by simp
  next
    fix k' x
    assume "x \<in> set (filter Q (take 1 (sort_key ord (filter (\<lambda>r. part r = k') rows))))"
    then have "x \<in> set (sort_key ord (filter (\<lambda>r. part r = k') rows))"
      by (auto dest: in_set_takeD)
    then show "part x = k'" by simp
  qed
  then show ?thesis unfolding first_rows_concat by simp
qed

lemma take1_sort_key_min:
  assumes "xs \<noteq> []"
  shows "\<exists>m. take 1 (sort_key ord xs) = [m] \<and> m \<in> set xs \<and> (\<forall>x\<in>set xs. ord m \<le> ord x)"
proof -
  have "sort_key ord xs \<noteq> []" using assms by (metis length_sort length_0_conv)
  then obtain m rest where ys: "sort_key ord xs = m # rest" by (cases "sort_key ord xs") auto
  have "sorted (map ord (sort_key ord xs))" by (rule sorted_sort_key)
  then have "\<forall>x\<in>set (m # rest). ord m \<le> ord x" unfolding ys by auto
  moreover have "set (m # rest) = set xs" using ys by (metis set_sort)
  ultimately show ?thesis using ys by auto
qed

lemma scoped_rows_employee:
  "(ed, u) \<in> set (scoped_rows fo fm org mon eds ups) \<Longrightarrow> ed \<in> set eds"
  by (auto simp add: scoped_rows_def)

lemma distinct_row_id:
  "distinct (map row_id eds) \<Longrightarrow> a \<in> set eds \<Longrightarrow> b \<in> set eds \<Longrightarrow> row_id a = row_id b \<Longrightarrow> a = b"
  by (meson distinct_map inj_onD)

lemma first_row_of_partition:
  assumes "r0 \<in> set rows" "\<forall>r\<in>set rows. Q r"
  shows "\<exists>m. m \<in> set rows \<and> part m = part r0
     \<and> filter (\<lambda>r. part r = part r0)
          (map fst (filter (\<lambda>x. snd x = 1 \<and> Q (fst x)) (row_number_over part ord rows))) = [m]
     \<and> (\<forall>r\<in>set rows. part r = part r0 \<longrightarrow> ord m \<le> ord r)"
proof -
  let ?P = "filter (\<lambda>r. part r = part r0) rows"
  have ne: "?P \<noteq> []" using assms(1) by (force simp add: filter_empty_conv)
  obtain m where m: "take 1 (sort_key ord ?P) = [m]" "m \<in> set ?P"
      "\<forall>x\<in>set ?P. ord m \<le> ord x"
    using take1_sort_key_min[OF ne, of ord] by blast
  have inimg: "part r0 \<in> part ` set rows" using assms(1) by blast
  have qm: "Q m" using m(2) assms(2) by simp
  have "filter (\<lambda>r. part r = part r0)
     (map fst (filter (\<lambda>x. snd x = 1 \<and> Q (fst x)) (row_number_over part ord rows))) = [m]"
    using first_rows_of_key[of part "part r0" Q ord rows] inimg m(1) qm by simp
  then show ?thesis using m(2,3) by auto
qed

lemma latest_alt:
  "filter (\<lambda>r. identity_key r = k) (latest fo fm org mon eds ups)
   = map fst (filter (\<lambda>r. identity_key (fst r) = k)
       (map fst (filter (\<lambda>x. snd x = 1 \<and> (\<lambda>_. True) (fst x))
          (row_number_over (\<lambda>r. identity_key (fst r)) ranked_order
             (scoped_rows fo fm org mon eds ups)))))"
  by (simp add: latest_def ranked_def filter_map comp_def)

lemma earliest_join_alt:
  "filter (\<lambda>r. identity_key r = k) (earliest_join fo fm org mon eds ups)
   = map fst (filter (\<lambda>r. identity_key (fst r) = k)
       (map fst (filter (\<lambda>x. snd x = 1 \<and> (\<lambda>r. DOJ (fst r) \<noteq> None) (fst x))
          (row_number_over (\<lambda>r. identity_key (fst r)) joined_first_order
             (filter (\<lambda>r. DOJ (fst r) \<noteq> None) (scoped_rows fo fm org mon eds ups))))))"
  by (simp add: earliest_join_def joined_first_def filter_map comp_def sql_where_def is_not_null_def)

text \<open>
  Claim C1. Row ids are the primary key of the employee table. For every record in the
  scope, the \<open>latest\<close> view holds exactly one record with that record's identity key: a
  record of the scope whose upload time is the greatest among the records of the
  identity, and whose row id is the greatest among those uploaded at that time. If the
  record has a join date, the \<open>earliest_join\<close> view holds exactly one record with the
  key: a record of the identity with the lowest join date and, among those, the lowest
  row id. An identity none of whose records has a join date has no record in
  \<open>earliest_join\<close>.
\<close>

theorem identity_resolver_one_record_per_identity:
  assumes "distinct (map row_id eds)"
    and "(ed, u) \<in> set (scoped_rows fo fm org mon eds ups)"
  shows "(\<exists>w uw. (w, uw) \<in> set (scoped_rows fo fm org mon eds ups)
           \<and> identity_key w = identity_key ed
           \<and> filter (\<lambda>r. identity_key r = identity_key ed) (latest fo fm org mon eds ups) = [w]
           \<and> (\<forall>(e', u') \<in> set (scoped_rows fo fm org mon eds ups).
                identity_key e' = identity_key ed \<longrightarrow>
                  uploadedAt u' < uploadedAt uw
                  \<or> (uploadedAt u' = uploadedAt uw \<and> (row_id e' < row_id w \<or> e' = w))))
       \<and> (DOJ ed \<noteq> None \<longrightarrow>
           (\<exists>w uw dw. (w, uw) \<in> set (scoped_rows fo fm org mon eds ups)
             \<and> identity_key w = identity_key ed \<and> DOJ w = Some dw
             \<and> filter (\<lambda>r. identity_key r = identity_key ed)
                  (earliest_join fo fm org mon eds ups) = [w]
             \<and> (\<forall>(e', u') \<in> set (scoped_rows fo fm org mon eds ups).
                  identity_key e' = identity_key ed \<longrightarrow>
                    (\<forall>d'. DOJ e' = Some d' \<longrightarrow>
                       dw < d' \<or> (dw = d' \<and> (row_id w < row_id e' \<or> e' = w))))))
       \<and> ((\<forall>(e', u') \<in> set (scoped_rows fo fm org mon eds ups).
              identity_key e' = identity_key ed \<longrightarrow> DOJ e' = None) \<longrightarrow>
            filter (\<lambda>r. identity_key r = identity_key ed)
                  (earliest_join fo fm org mon eds ups) = [])"
proof -
  let ?rows = "scoped_rows fo fm org mon eds ups"
  let ?k = "identity_key ed"
  let ?part = "\<lambda>r::employee \<times> upload. identity_key (fst r)"
  have part1: "\<exists>w uw. (w, uw) \<in> set ?rows \<and> identity_key w = ?k
           \<and> filter (\<lambda>r. identity_key r = ?k) (latest fo fm org mon eds ups) = [w]
           \<and> (\<forall>(e', u') \<in> set ?rows. identity_key e' = ?k \<longrightarrow>
                  uploadedAt u' < uploadedAt uw
                  \<or> (uploadedAt u' = uploadedAt uw \<and> (row_id e' < row_id w \<or> e' = w)))"
  proof -
    obtain m where m: "m \<in> set ?rows" "?part m = ?part (ed, u)"
      "filter (\<lambda>r. ?part r = ?part (ed, u))
          (map fst (filter (\<lambda>x. snd x = 1 \<and> (\<lambda>_. True) (fst x))
             (row_number_over ?part ranked_order ?rows))) = [m]"
      "\<forall>r\<in>set ?rows. ?part r = ?part (ed, u) \<longrightarrow> ranked_order m \<le> ranked_order r"
      using first_row_of_partition[of "(ed, u)" ?rows "\<lambda>_. True" ?part ranked_order] assms(2)
      by blast
    have sel: "filter (\<lambda>r. identity_key r = ?k) (latest fo fm org mon eds ups) = [fst m]"
      unfolding latest_alt using m(3) by simp
    have ord: "uploadedAt u' < uploadedAt (snd m)
                  \<or> (uploadedAt u' = uploadedAt (snd m) \<and> (row_id e' < row_id (fst m) \<or> e' = fst m))"
      if r: "(e', u') \<in> set ?rows" "identity_key e' = ?k" for e' u'
    proof -
      have le: "ranked_order m \<le> ranked_order (e', u')" using m(4) r by simp
      have "e' \<in> set eds" "fst m \<in> set eds"
        using r(1) m(1) scoped_rows_employee[of e' u'] scoped_rows_employee[of "fst m" "snd m"]
        by auto
      then have "row_id e' \<noteq> row_id (fst m) \<or> e' = fst m"
        using distinct_row_id[OF assms(1)] by blast
      then show ?thesis using le by (auto simp add: ranked_order_def)
    qed
    have "(fst m, snd m) \<in> set ?rows" "identity_key (fst m) = ?k" using m(1,2) by auto
    then show ?thesis using sel ord by blast
  qed
  let ?rows' = "filter (\<lambda>r. DOJ (fst r) \<noteq> None) ?rows"
  have part2: "\<exists>w uw dw. (w, uw) \<in> set ?rows
             \<and> identity_key w = ?k \<and> DOJ w = Some dw
             \<and> filter (\<lambda>r. identity_key r = ?k) (earliest_join fo fm org mon eds ups) = [w]
             \<and> (\<forall>(e', u') \<in> set ?rows. identity_key e' = ?k \<longrightarrow>
                    (\<forall>d'. DOJ e' = Some d' \<longrightarrow>
                       dw < d' \<or> (dw = d' \<and> (row_id w < row_id e' \<or> e' = w))))"
    if doj: "DOJ ed \<noteq> None"
  proof -
    have in': "(ed, u) \<in> set ?rows'" using assms(2) doj by simp
    have all': "\<forall>r\<in>set ?rows'. (\<lambda>r. DOJ (fst r) \<noteq> None) r" by simp
    obtain m where m: "m \<in> set ?rows'" "?part m = ?part (ed, u)"
      "filter (\<lambda>r. ?part r = ?part (ed, u))
          (map fst (filter (\<lambda>x. snd x = 1 \<and> (\<lambda>r. DOJ (fst r) \<noteq> None) (fst x))
             (row_number_over ?part joined_first_order ?rows'))) = [m]"
      "\<forall>r\<in>set ?rows'. ?part r = ?part (ed, u) \<longrightarrow> joined_first_order m \<le> joined_first_order r"
      using first_row_of_partition[OF in' all', of ?part joined_first_order] by blast
    obtain dw where dw: "DOJ (fst m) = Some dw" using m(1) by auto
    have sel: "filter (\<lambda>r. identity_key r = ?k) (earliest_join fo fm org mon eds ups) = [fst m]"
      unfolding earliest_join_alt using m(3) by simp
    have ord: "dw < d' \<or> (dw = d' \<and> (row_id (fst m) < row_id e' \<or> e' = fst m))"
      if r: "(e', u') \<in> set ?rows" "identity_key e' = ?k" "DOJ e' = Some d'" for e' u' d'
    proof -
      have "(e', u') \<in> set ?rows'" using r by simp
      then have le: "joined_first_order m \<le> joined_first_order (e', u')" using m(4) r by simp
      have "e' \<in> set eds" "fst m \<in> set eds"
        using r(1) m(1) scoped_rows_employee[of e' u'] scoped_rows_employee[of "fst m" "snd m"]
        by auto
      then have "row_id e' \<noteq> row_id (fst m) \<or> e' = fst m"
        using distinct_row_id[OF assms(1)] by blast
      then show ?thesis using le dw r(3) by (auto simp add: joined_first_order_def)
    qed
    have "(fst m, snd m) \<in> set ?rows" "identity_key (fst m) = ?k" using m(1,2) by auto
    then show ?thesis using sel ord dw by blast
  qed
  have part3: "filter (\<lambda>r. identity_key r = ?k) (earliest_join fo fm org mon eds ups) = []"
    if none: "\<forall>(e', u') \<in> set ?rows. identity_key e' = ?k \<longrightarrow> DOJ e' = None"
  proof -
    have "?k \<notin> ?part ` set ?rows'" using none by auto
    then show ?thesis
      unfolding earliest_join_alt
      using first_rows_of_key[of ?part ?k "\<lambda>r. DOJ (fst r) \<noteq> None" joined_first_order ?rows']
      by simp
  qed
  show ?thesis using part1 part2 part3 by blast
qed

theorem identity_resolver_one_record_per_identity_witness:
  "distinct (map row_id example_employees)
   \<and> (example_employees ! 0, example_uploads ! 0)
        \<in> set (scoped_rows True False (Some ''org'') None example_employees example_uploads)
   \<and> (\<exists>w. filter (\<lambda>r. identity_key r = ''E1'')
              (latest True False (Some ''org'') None example_employees example_uploads) = [w])
   \<and> (\<exists>w. filter (\<lambda>r. identity_key r = ''E1'')
              (earliest_join True False (Some ''org'') None example_employees example_uploads) = [w])"
proof -
  have d: "distinct (map row_id example_employees)"
    by (simp add: example_employees_def example_employee_def example_leaver_def
        example_joiner_def)
  have m: "(example_employees ! 0, example_uploads ! 0)
        \<in> set (scoped_rows True False (Some ''org'') None example_employees example_uploads)"
    by (simp add: example_employees_def example_employee_def example_uploads_def
        scoped_rows_def org_clause_def month_clause_def sql_where_def sql_cmp_def)
  have k: "identity_key (example_employees ! 0) = ''E1''"
    by (simp add: example_employees_def example_employee_def identity_key_def)
  have j: "DOJ (example_employees ! 0) \<noteq> None"
    by (simp add: example_employees_def example_employee_def)
  note t = identity_resolver_one_record_per_identity[OF d m, unfolded k]
  obtain w where a: "filter (\<lambda>r. identity_key r = ''E1'')
              (latest True False (Some ''org'') None example_employees example_uploads) = [w]"
    using t[THEN conjunct1] by blast
  obtain w' where b: "filter (\<lambda>r. identity_key r = ''E1'')
              (earliest_join True False (Some ''org'') None example_employees example_uploads) = [w']"
    using t[THEN conjunct2, THEN conjunct1, rule_format, OF j] by blast
  show ?thesis using d m a b by blast
qed

subsection \<open>Activity rules and the gender ratio\<close>

lemma entity_clause_where:
  "sql_where (entity_clause fe ents ed) = spec_entity_selected fe ents ed"
  by (simp add: entity_clause_def spec_entity_selected_def sql_where_def split: option.splits)

lemma entity_clause_cases:
  "entity_clause fe ents ed = Some True \<or> entity_clause fe ents ed = Some False
   \<or> entity_clause fe ents ed = None"
  by (cases "entity_clause fe ents ed") auto

lemma manpower_condition_where:
  "sql_where (manpower_condition fe ents step t ed)
     = (spec_active_whole_bucket t (pg_add_months t step) ed \<and> spec_entity_selected fe ents ed)"
  using entity_clause_cases[of fe ents ed]
  unfolding entity_clause_where[symmetric]
  by (cases "DOJ ed"; cases "Final_LWD ed")
     (auto simp add: manpower_condition_def spec_active_whole_bucket_def sql_where_def
        sql_and_def sql_or_def sql_cmp_def is_null_def is_not_null_def)

lemma demographics_condition_where:
  "sql_where (demographics_condition fe apply_range ents start end cutoff ed)
     = ((if apply_range then spec_active_in_range start end ed
         else spec_active_on_cutoff cutoff ed) \<and> spec_entity_selected fe ents ed)"
  using entity_clause_cases[of fe ents ed]
  unfolding entity_clause_where[symmetric]
  by (cases "DOJ ed"; cases "Final_LWD ed")
     (auto simp add: demographics_condition_def demographics_range_clause_def
        spec_active_in_range_def spec_active_on_cutoff_def sql_where_def
        sql_and_def sql_or_def sql_cmp_def is_null_def is_not_null_def)

text \<open>
  Claim C2. The headcount of the series for the bucket starting at \<open>t\<close> counts exactly
  the latest records with a join date on or before \<open>t\<close> and a last working day that is
  absent or on or after the start of the next bucket (and a selected entity, when
  entities are filtered). The active rows of the demographics query are, without an
  explicit range, exactly those with a join date on or before the cutoff and a last
  working day absent or after the cutoff; with one, those with a join date on or before
  the end and a last working day absent or on or after the start.
\<close>

theorem activity_rules:
  "manpower_headcount fe ents (step_months g) rows t
     = int (length (filter (\<lambda>ed. spec_active_whole_bucket t (pg_add_months t (step_months g)) ed
                                  \<and> spec_entity_selected fe ents ed) rows))
   \<and> demographics_active fe False ents start end cutoff rows
     = filter (\<lambda>ed. spec_active_on_cutoff cutoff ed \<and> spec_entity_selected fe ents ed) rows
   \<and> demographics_active fe True ents start end cutoff rows
     = filter (\<lambda>ed. spec_active_in_range start end ed \<and> spec_entity_selected fe ents ed) rows"
  by (simp add: manpower_headcount_def demographics_active_def manpower_condition_where
      demographics_condition_where)








text \<open>A leaver of 10 February 2024: not counted for the bucket of February 2024, active
  on the cutoff 1 February 2024, not active during March 2024.\<close>

theorem activity_rules_witness:
  "manpower_headcount False [] (step_months Monthly) [example_leaver] (Date 2024 2 1) = 0
   \<and> demographics_active False False [] (Date 2024 1 1) (Date 2024 2 1) (Date 2024 2 1)
        [example_leaver] = [example_leaver]
   \<and> demographics_active False True [] (Date 2024 3 1) (Date 2024 4 1) (Date 2024 4 1)
        [example_leaver] = []"
proof -
  have e: "DOJ example_leaver = Some (Date 2020 1 15)"
      "Final_LWD example_leaver = Some (Date 2024 2 10)"
    by (simp_all add: example_leaver_def example_employee_def)
  have n: "pg_add_months (Date 2024 2 1) 1 = Date 2024 3 1"
    by (simp add: pg_add_months_def days_in_month_def)
  show ?thesis
    using activity_rules[of False "[]" Monthly "[example_leaver]" "Date 2024 2 1"
        "Date 2024 1 1" "Date 2024 2 1" "Date 2024 2 1"]
      activity_rules[of False "[]" Monthly "[example_leaver]" "Date 2024 2 1"
        "Date 2024 3 1" "Date 2024 4 1" "Date 2024 4 1"]
    by (simp add: e n step_months_def spec_active_whole_bucket_def spec_active_on_cutoff_def
        spec_active_in_range_def spec_entity_selected_def less_eq_date_def less_date_def date_key_def)
qed


subsection \<open>The headcount series\<close>

lemma month_index_div_mod:
  assumes "(1::int) \<le> m" "m \<le> 12"
  shows "(y * 12 + m - 1) div 12 = y \<and> (y * 12 + m - 1) mod 12 + 1 = m"
proof -
  have e: "y * 12 + m - 1 = (m - 1) + y * 12" by simp
  have "((m - 1) + y * 12) div 12 = y + (m - 1) div 12" by (rule div_mult_self1) simp
  moreover have "(m - 1) div 12 = 0" using assms by simp
  moreover have "((m - 1) + y * 12) mod 12 = (m - 1) mod 12" by (rule mod_mult_self1)
  moreover have "(m - 1) mod 12 = m - 1" using assms by simp
  ultimately show ?thesis unfolding e by simp
qed

lemma lex12:
  assumes "(0::int) \<le> ri" "ri < 12" "0 \<le> rj" "rj < 12"
  shows "(qi < qj \<or> qi \<le> qj \<and> ri \<le> rj) \<longleftrightarrow> 12 * qi + ri \<le> 12 * qj + rj"
  using assms by linarith

lemma lex_div_mod_12: "((i::int) div 12 < j div 12 \<or> i div 12 \<le> j div 12 \<and> i mod 12 \<le> j mod 12) \<longleftrightarrow> i \<le> j"
proof -
  have i: "i = 12 * (i div 12) + i mod 12" and j: "j = 12 * (j div 12) + j mod 12" by simp_all
  have "(i div 12 < j div 12 \<or> i div 12 \<le> j div 12 \<and> i mod 12 \<le> j mod 12)
        \<longleftrightarrow> 12 * (i div 12) + i mod 12 \<le> 12 * (j div 12) + j mod 12"
    by (rule lex12) simp_all
  then show ?thesis using i j by simp
qed

lemma add_div_mod_12: "(i::int) div 12 + (i mod 12 + n) div 12 = (i + n) div 12 \<and> (i mod 12 + n) mod 12 = (i + n) mod 12"
proof -
  have e: "i + n = (i mod 12 + n) + (i div 12) * 12" by simp
  have "((i mod 12 + n) + (i div 12) * 12) div 12 = i div 12 + (i mod 12 + n) div 12"
    by (rule div_mult_self1) simp
  moreover have "((i mod 12 + n) + (i div 12) * 12) mod 12 = (i mod 12 + n) mod 12"
    by (rule mod_mult_self1)
  ultimately show ?thesis using e by metis
qed

lemma month_index_first_of_month: "month_index (first_of_month i) = i"
  by (simp add: month_index_def first_of_month_def)

lemma first_of_month_le: "first_of_month i \<le> first_of_month j \<longleftrightarrow> i \<le> j"
  using lex_div_mod_12[of i j] by (auto simp add: less_eq_date_def date_key_def first_of_month_def)

lemma pg_add_months_first_of_month:
  "pg_add_months (first_of_month i) n = first_of_month (i + n)"
proof -
  have c: "min 1 (days_in_month y m) = 1" for y m using dim_bounds[of y m] by simp
  show ?thesis using add_div_mod_12[of i n]
    by (simp add: pg_add_months_def first_of_month_def Let_def c)
qed

lemma generate_series_unfold:
  assumes "0 < k"
  shows "generate_series (first_of_month i) (first_of_month j) k =
     (if i \<le> j then first_of_month i # generate_series (first_of_month (i + k)) (first_of_month j) k
      else [])"
  using assms
  by (subst generate_series.simps) (simp add: first_of_month_le pg_add_months_first_of_month)

lemma map_upt_Suc_shift: "map f [0..<Suc n] = f 0 # map (\<lambda>j. f (Suc j)) [0..<n]"
  by (simp add: upt_conv_Cons map_Suc_upt[symmetric] comp_def del: upt_Suc)

lemma generate_series_index:
  assumes "0 < k"
  shows "generate_series (first_of_month i) (first_of_month (i + int n * k)) k
         = map (\<lambda>j. first_of_month (i + int j * k)) [0..<Suc n]"
proof (induction n arbitrary: i)
  case 0
  have "generate_series (first_of_month (i + k)) (first_of_month i) k = []"
    using assms generate_series_unfold[OF assms, of "i + k" i] by simp
  then show ?case using generate_series_unfold[OF assms, of i i] by simp
next
  case (Suc n)
  have e: "i + int (Suc n) * k = (i + k) + int n * k" by (simp add: algebra_simps)
  have le: "i \<le> i + int (Suc n) * k" using assms by simp
  have "generate_series (first_of_month i) (first_of_month (i + int (Suc n) * k)) k
        = first_of_month i # generate_series (first_of_month (i + k)) (first_of_month ((i + k) + int n * k)) k"
    using generate_series_unfold[OF assms, of i "i + int (Suc n) * k"] le unfolding e by simp
  also have "\<dots> = first_of_month i # map (\<lambda>j. first_of_month ((i + k) + int j * k)) [0..<Suc n]"
    using Suc.IH[of "i + k"] by simp
  also have "\<dots> = map (\<lambda>j. first_of_month (i + int j * k)) [0..<Suc (Suc n)]"
    unfolding map_upt_Suc_shift[of "\<lambda>j. first_of_month (i + int j * k)" "Suc n"]
    by (simp add: algebra_simps)
  finally show ?case .
qed

lemma lag_headcount_series:
  assumes "0 < k"
  shows "lag_headcount prev
           (map (\<lambda>s. (s, f s)) (generate_series (first_of_month i) (first_of_month (i + int n * k)) k))
         = (first_of_month i, f (first_of_month i), prev)
           # map (\<lambda>s. (s, f s, Some (f (pg_add_months s (- k)))))
               (generate_series (first_of_month (i + k)) (first_of_month (i + int n * k)) k)"
proof (induction n arbitrary: i prev)
  case 0
  have "generate_series (first_of_month (i + k)) (first_of_month i) k = []"
    using assms generate_series_unfold[OF assms, of "i + k" i] by simp
  then show ?case using generate_series_unfold[OF assms, of i i] by simp
next
  case (Suc n)
  have e: "i + int (Suc n) * k = (i + k) + int n * k" by (simp add: algebra_simps)
  have le: "i \<le> i + int (Suc n) * k" "i + k \<le> i + int (Suc n) * k" using assms by simp_all
  let ?stop = "first_of_month (i + int (Suc n) * k)"
  have u1: "generate_series (first_of_month i) ?stop k
        = first_of_month i # generate_series (first_of_month (i + k)) ?stop k"
    using generate_series_unfold[OF assms, of i "i + int (Suc n) * k"] le by simp
  have u2: "generate_series (first_of_month (i + k)) ?stop k
        = first_of_month (i + k) # generate_series (first_of_month (i + k + k)) ?stop k"
    using generate_series_unfold[OF assms, of "i + k" "i + int (Suc n) * k"] le by simp
  have ih: "lag_headcount (Some (f (first_of_month i)))
           (map (\<lambda>s. (s, f s)) (generate_series (first_of_month (i + k)) ?stop k))
         = (first_of_month (i + k), f (first_of_month (i + k)), Some (f (first_of_month i)))
           # map (\<lambda>s. (s, f s, Some (f (pg_add_months s (- k)))))
               (generate_series (first_of_month (i + k + k)) ?stop k)"
    using Suc.IH[where prev="Some (f (first_of_month i))" and i="i + k"] unfolding e by simp
  have bk: "pg_add_months (first_of_month (i + k)) (- k) = first_of_month i"
    by (simp add: pg_add_months_first_of_month)
  show ?case
    unfolding u1 using ih unfolding u2 by (simp add: bk)
qed

lemma step_months_pos: "0 < step_months g"
  by (cases g) (simp_all add: step_months_def)

lemma date_trunc_index:
  assumes "1 \<le> month d" "month d \<le> 12"
  shows "date_trunc g d = first_of_month ((month_index d div step_months g) * step_months g)"
proof (cases g)
  case Monthly
  then show ?thesis using month_index_div_mod[OF assms, of "year d"]
    by (simp add: date_trunc_def step_months_def month_index_def first_of_month_def)
next
  case Quarterly
  define q where "q = (month d - 1) div 3 * 3 + 1"
  have q: "1 \<le> q" "q \<le> 12" using quarter_month_range[OF assms] by (simp_all add: q_def)
  have e: "year d * 12 + month d - 1 = (month d - 1) + (year d * 4) * 3" by simp
  have "((month d - 1) + (year d * 4) * 3) div 3 = year d * 4 + (month d - 1) div 3"
    by (rule div_mult_self1) simp
  then have "(month_index d div 3) * 3 = year d * 12 + q - 1"
    unfolding month_index_def e q_def by simp
  then show ?thesis using Quarterly month_index_div_mod[OF q, of "year d"]
    by (simp add: date_trunc_def step_months_def first_of_month_def q_def)
next
  case Yearly
  have "month_index d div 12 = year d" using month_index_div_mod[OF assms, of "year d"] by (simp add: month_index_def)
  then show ?thesis using Yearly
    by (simp add: date_trunc_def step_months_def first_of_month_def)
qed

lemma month_index_mono:
  assumes "1 \<le> month a" "month a \<le> 12" "1 \<le> month b" "month b \<le> 12" "a \<le> b"
  shows "month_index a \<le> month_index b"
proof -
  have "year a < year b \<or> (year a \<le> year b \<and> month a \<le> month b)"
    using assms(5) by (auto simp add: less_eq_date_def date_key_def)
  then show ?thesis using assms(1-4) unfolding month_index_def by linarith
qed

lemma sorted_first_of_month:
  assumes "0 < k"
  shows "sorted (map (\<lambda>j. first_of_month (i + int j * k)) [0..<n])"
proof -
  have "sorted_wrt (\<lambda>x y. first_of_month (i + int x * k) \<le> first_of_month (i + int y * k)) [0..<n]"
  proof (rule sorted_wrt_mono_rel[OF _ sorted_wrt_upt])
    fix x y :: nat
    assume "x < y"
    then have "int x * k \<le> int y * k" using assms by (simp add: mult_right_mono)
    then show "first_of_month (i + int x * k) \<le> first_of_month (i + int y * k)"
      by (simp add: first_of_month_le)
  qed
  then show ?thesis by (simp add: sorted_map)
qed

lemma manpower_select_spec:
  "manpower_select (s, hc s, Some (hc (pg_add_months s (- k)))) = spec_ramp_point hc k s"
  by (simp add: manpower_select_def spec_ramp_point_def)

text \<open>
  Claim C5. For a start date not after the end date, the series has one point for every
  bucket from the bucket of the start to the bucket of the end, both included. At every
  point the opening headcount is the headcount of the bucket one step earlier (for the
  first point this is the bucket before the window, which is not itself a point), the
  ramp change is the headcount minus the opening headcount, and the ramp percentage is
  the ramp change over the opening headcount, or 0 when the opening headcount is 0.
\<close>

theorem headcount_series_points:
  assumes "valid_date start" "valid_date end" "start \<le> end"
  shows "\<exists>n. pg_add_months (date_trunc g start) (int n * step_months g) = date_trunc g end
     \<and> build_manpower_sql g fe fo fm start end ents org mon eds ups
       = map (\<lambda>j. spec_ramp_point
                     (manpower_headcount fe ents (step_months g) (latest fo fm org mon eds ups))
                     (step_months g)
                     (pg_add_months (date_trunc g start) (int j * step_months g)))
             [0..<Suc n]"
proof -
  define k where "k = step_months g"
  define hc where "hc = manpower_headcount fe ents k (latest fo fm org mon eds ups)"
  define a b where "a = month_index start div k" and "b = month_index end div k"
  have kpos: "0 < k" unfolding k_def by (rule step_months_pos)
  have ms: "1 \<le> month start" "month start \<le> 12" and me: "1 \<le> month end" "month end \<le> 12"
    using assms(1,2) by (simp_all add: valid_date_def)
  have sp: "date_trunc g start = first_of_month (a * k)"
    unfolding a_def k_def by (rule date_trunc_index[OF ms])
  have ep0: "date_trunc g end = first_of_month (b * k)"
    unfolding b_def k_def by (rule date_trunc_index[OF me])
  have "month_index start \<le> month_index end" by (rule month_index_mono[OF ms me assms(3)])
  then have ab: "a \<le> b" unfolding a_def b_def using kpos by (simp add: zdiv_mono1)
  define n where "n = nat (b - a)"
  have bk: "b * k = a * k + int n * k" using ab by (simp add: n_def algebra_simps)
  have ep: "date_trunc g end = first_of_month (a * k + int n * k)" using ep0 bk by simp
  have ep': "first_of_month (a * k + int n * k) = first_of_month ((a * k - k) + int (Suc n) * k)"
    by (simp add: algebra_simps)
  let ?pre = "first_of_month (a * k - k)"
  let ?stop = "first_of_month (a * k + int n * k)"
  let ?pts = "map (\<lambda>j. first_of_month (a * k + int j * k)) [0..<Suc n]"
  have series: "generate_series (pg_add_months (first_of_month (a * k)) (- k)) ?stop k
      = generate_series ?pre (first_of_month ((a * k - k) + int (Suc n) * k)) k"
    by (simp add: pg_add_months_first_of_month algebra_simps)
  have series_idx: "generate_series ?pre (first_of_month ((a * k - k) + int (Suc n) * k)) k
      = map (\<lambda>j. first_of_month ((a * k - k) + int j * k)) [0..<Suc (Suc n)]"
    by (rule generate_series_index[OF kpos])
  have sorted1: "sorted (map fst (map (\<lambda>s. (s, hc s))
          (generate_series ?pre (first_of_month ((a * k - k) + int (Suc n) * k)) k)))"
    unfolding series_idx using sorted_first_of_month[OF kpos, of "a * k - k" "Suc (Suc n)"]
    by (simp add: comp_def del: upt_Suc)
  have rest: "generate_series (first_of_month (a * k - k + k)) (first_of_month ((a * k - k) + int (Suc n) * k)) k
      = ?pts"
    using generate_series_index[OF kpos, of "a * k" n] by (simp add: algebra_simps)
  have enriched: "lag_headcount None (sort_key fst (map (\<lambda>s. (s, hc s))
          (generate_series ?pre (first_of_month ((a * k - k) + int (Suc n) * k)) k)))
      = (?pre, hc ?pre, None) # map (\<lambda>s. (s, hc s, Some (hc (pg_add_months s (- k))))) ?pts"
    unfolding sort_key_id_if_sorted[OF sorted1]
    unfolding lag_headcount_series[OF kpos, of None hc "a * k - k" "Suc n"]
    unfolding rest by simp
  have drop_pre: "\<not> first_of_month (a * k) \<le> ?pre"
    using kpos by (simp add: first_of_month_le)
  have keep: "filter (\<lambda>e. first_of_month (a * k) \<le> fst e)
                 (map (\<lambda>s. (s, hc s, Some (hc (pg_add_months s (- k))))) ?pts)
             = map (\<lambda>s. (s, hc s, Some (hc (pg_add_months s (- k))))) ?pts"
    using kpos by (simp add: filter_map comp_def first_of_month_le del: upt_Suc)
  have sorted2: "sorted (map fst (map (\<lambda>s. (s, hc s, Some (hc (pg_add_months s (- k))))) ?pts))"
    using sorted_first_of_month[OF kpos, of "a * k" "Suc n"] by (simp add: comp_def del: upt_Suc)
  have selected: "sort_key fst (filter (\<lambda>e. first_of_month (a * k) \<le> fst e)
        ((?pre, hc ?pre, None) # map (\<lambda>s. (s, hc s, Some (hc (pg_add_months s (- k))))) ?pts))
      = map (\<lambda>s. (s, hc s, Some (hc (pg_add_months s (- k))))) ?pts"
    using drop_pre keep sort_key_id_if_sorted[OF sorted2] by simp
  have pts: "first_of_month (a * k + int j * k)
      = pg_add_months (date_trunc g start) (int j * step_months g)" for j
    unfolding sp by (simp add: pg_add_months_first_of_month k_def)
  have result: "build_manpower_sql g fe fo fm start end ents org mon eds ups
      = map (\<lambda>j. spec_ramp_point hc k (first_of_month (a * k + int j * k))) [0..<Suc n]"
    unfolding build_manpower_sql_def Let_def k_def[symmetric] hc_def[symmetric] sp ep
    unfolding series enriched selected
    by (simp add: manpower_select_spec comp_def del: upt_Suc)
  have last: "pg_add_months (date_trunc g start) (int n * step_months g) = date_trunc g end"
    unfolding pts[symmetric] ep ..
  have result': "build_manpower_sql g fe fo fm start end ents org mon eds ups
      = map (\<lambda>j. spec_ramp_point hc k
                    (pg_add_months (date_trunc g start) (int j * step_months g))) [0..<Suc n]"
    using result by (simp only: pts)
  show ?thesis
    using last result' unfolding hc_def k_def by blast
qed

theorem headcount_series_points_witness:
  "valid_date (Date 2024 1 15) \<and> valid_date (Date 2024 3 2) \<and> Date 2024 1 15 \<le> Date 2024 3 2
   \<and> (\<exists>n. pg_add_months (date_trunc Monthly (Date 2024 1 15)) (int n * step_months Monthly)
              = date_trunc Monthly (Date 2024 3 2)
     \<and> build_manpower_sql Monthly False True False (Date 2024 1 15) (Date 2024 3 2) []
          (Some ''org'') None example_employees example_uploads
       = map (\<lambda>j. spec_ramp_point
                     (manpower_headcount False [] (step_months Monthly)
                        (latest True False (Some ''org'') None example_employees example_uploads))
                     (step_months Monthly)
                     (pg_add_months (date_trunc Monthly (Date 2024 1 15))
                        (int j * step_months Monthly)))
             [0..<Suc n])"
proof -
  have v1: "valid_date (Date 2024 1 15)" by (simp add: valid_date_def days_in_month_def)
  have v2: "valid_date (Date 2024 3 2)" by (simp add: valid_date_def days_in_month_def)
  have le: "Date 2024 1 15 \<le> Date 2024 3 2" by (simp add: less_eq_date_def date_key_def)
  show ?thesis
    using headcount_series_points[OF v1 v2 le, of Monthly False True False "[]" "Some ''org''"
        None example_employees example_uploads] v1 v2 le
    by blast
qed

subsection \<open>Fiscal-year windows\<close>

lemma lex12_strict:
  assumes "(0::int) \<le> ri" "ri < 12" "0 \<le> rj" "rj < 12"
  shows "(qi < qj \<or> qi = qj \<and> ri < rj) \<longleftrightarrow> 12 * qi + ri < 12 * qj + rj"
  using assms by linarith

lemma lex12_eq:
  assumes "(0::int) \<le> ri" "ri < 12" "0 \<le> rj" "rj < 12"
  shows "(qi = qj \<and> ri = rj) \<longleftrightarrow> 12 * qi + ri = 12 * qj + rj"
proof
  assume "qi = qj \<and> ri = rj"
  then show "12 * qi + ri = 12 * qj + rj" by simp
next
  assume e: "12 * qi + ri = 12 * qj + rj"
  have "\<not> 12 * qi + ri < 12 * qj + rj" "\<not> 12 * qj + rj < 12 * qi + ri" using e by simp_all
  then have "\<not> (qi < qj \<or> qi = qj \<and> ri < rj)" "\<not> (qj < qi \<or> qj = qi \<and> rj < ri)"
    using lex12_strict[OF assms, of qi qj] lex12_strict[OF assms(3,4,1,2), of qj qi] by blast+
  then show "qi = qj \<and> ri = rj" by linarith
qed

lemma month_pair_less:
  assumes "1 \<le> month d" "month d \<le> 12"
  shows "(year d < j div 12 \<or> year d = j div 12 \<and> month d < j mod 12 + 1) \<longleftrightarrow> month_index d < j"
proof -
  have j: "12 * (j div 12) + j mod 12 = j" by simp
  have i: "12 * year d + (month d - 1) = month_index d" by (simp add: month_index_def)
  have "(year d < j div 12 \<or> year d = j div 12 \<and> month d - 1 < j mod 12)
        \<longleftrightarrow> 12 * year d + (month d - 1) < 12 * (j div 12) + j mod 12"
    using assms by (intro lex12_strict) simp_all
  then have "(year d < j div 12 \<or> year d = j div 12 \<and> month d - 1 < j mod 12)
        \<longleftrightarrow> month_index d < j"
    unfolding i j .
  moreover have "month d - 1 < j mod 12 \<longleftrightarrow> month d < j mod 12 + 1" by linarith
  ultimately show ?thesis by simp
qed

lemma month_pair_eq:
  assumes "1 \<le> month d" "month d \<le> 12"
  shows "(year d = j div 12 \<and> month d = j mod 12 + 1) \<longleftrightarrow> month_index d = j"
proof -
  have j: "12 * (j div 12) + j mod 12 = j" by simp
  have i: "12 * year d + (month d - 1) = month_index d" by (simp add: month_index_def)
  have "(year d = j div 12 \<and> month d - 1 = j mod 12)
        \<longleftrightarrow> 12 * year d + (month d - 1) = 12 * (j div 12) + j mod 12"
    using assms by (intro lex12_eq) simp_all
  then have "(year d = j div 12 \<and> month d - 1 = j mod 12) \<longleftrightarrow> month_index d = j"
    unfolding i j .
  moreover have "month d - 1 = j mod 12 \<longleftrightarrow> month d = j mod 12 + 1" by linarith
  ultimately show ?thesis by simp
qed

lemma le_first_of_month:
  assumes "1 \<le> month d" "month d \<le> 12"
  shows "d \<le> first_of_month j \<longleftrightarrow> month_index d < j \<or> (month_index d = j \<and> day d \<le> 1)"
  unfolding month_pair_less[OF assms, symmetric] month_pair_eq[OF assms, symmetric]
  by (auto simp add: less_eq_date_def date_key_def first_of_month_def)

lemma first_of_month_lt:
  assumes "1 \<le> month d" "month d \<le> 12"
  shows "first_of_month j < d \<longleftrightarrow> j < month_index d \<or> (month_index d = j \<and> 1 < day d)"
  using le_first_of_month[OF assms, of j] by (auto simp add: not_le[symmetric])

lemma april_first: "Date y 4 1 = first_of_month (12 * y + 3)"
proof -
  have "(3 + y * 12) div 12 = y + 3 div 12" by (rule div_mult_self1) simp
  moreover have "(3 + y * 12) mod 12 = 3 mod 12" by (rule mod_mult_self1)
  ultimately show ?thesis by (simp add: first_of_month_def add.commute mult.commute)
qed

lemma add_years_april: "pg_add_months (Date y 4 1) (12 * j) = Date (y + j) 4 1"
  unfolding april_first by (simp add: pg_add_months_first_of_month algebra_simps)

lemma pg_age_forward:
  assumes "\<not> e < Date y 4 1" "1 \<le> day e"
  shows "fst (pg_age e (Date y 4 1)) * 12 + fst (snd (pg_age e (Date y 4 1)))
           = 12 * (year e - y) + (month e - 4)"
    and "snd (snd (pg_age e (Date y 4 1))) = day e - 1"
  using assms by (simp_all add: pg_age_def Let_def)

lemma window_months:
  assumes lo: "Date y 4 1 < e" and hi: "e \<le> Date (y + 1) 4 1"
    and v: "1 \<le> month e" "month e \<le> 12" "1 \<le> day e"
  defines "m \<equiv> max 1 (min 12 (fst (pg_age e (Date y 4 1)) * 12 + fst (snd (pg_age e (Date y 4 1)))
                   + (if 0 < snd (snd (pg_age e (Date y 4 1))) then 1 else 0)))"
  shows "1 \<le> m \<and> m \<le> 12 \<and> e \<le> pg_add_months (Date y 4 1) m
         \<and> pg_add_months (Date y 4 1) (m - 1) < e"
proof -
  define S where "S = 12 * y + 3"
  define T where "T = month_index e - S"
  define dl where "dl = (if 1 < day e then 1 else (0::int))"
  have nlt: "\<not> e < Date y 4 1" using lo by simp
  have raw: "fst (pg_age e (Date y 4 1)) * 12 + fst (snd (pg_age e (Date y 4 1)))
                   + (if 0 < snd (snd (pg_age e (Date y 4 1))) then 1 else 0) = T + dl"
    unfolding pg_age_forward[OF nlt v(3)] T_def S_def dl_def month_index_def by simp
  have lo': "S < month_index e \<or> (month_index e = S \<and> 1 < day e)"
    using lo unfolding april_first S_def[symmetric] first_of_month_lt[OF v(1,2)] .
  have e1: "12 * (y + 1) + 3 = S + 12" by (simp add: S_def)
  have hi': "month_index e < S + 12 \<or> (month_index e = S + 12 \<and> day e \<le> 1)"
    using hi unfolding april_first e1 le_first_of_month[OF v(1,2)] .
  have rng: "1 \<le> T + dl" "T + dl \<le> 12"
    using lo' hi' unfolding T_def dl_def by (auto split: if_splits)
  have m: "m = T + dl" unfolding m_def raw using rng by simp
  have idx: "month_index e = S + T" by (simp add: T_def)
  have up: "e \<le> first_of_month (S + (T + dl))"
    unfolding le_first_of_month[OF v(1,2)] idx using v(3) by (auto simp add: dl_def)
  have dn: "first_of_month (S + (T + dl - 1)) < e"
    unfolding first_of_month_lt[OF v(1,2)] idx by (auto simp add: dl_def)
  show ?thesis
    using rng up dn unfolding m april_first S_def[symmetric] pg_add_months_first_of_month
    by simp
qed

lemma current_fy_start_bounds:
  assumes "valid_date cutoff"
  shows "current_fy_start cutoff = Date (year (current_fy_start cutoff)) 4 1"
    and "current_fy_start cutoff \<le> cutoff"
    and "cutoff < Date (year (current_fy_start cutoff) + 1) 4 1"
  using assms
  by (auto simp add: current_fy_start_def valid_date_def less_eq_date_def less_date_def date_key_def)

lemma pg_next_day_facts:
  assumes "valid_date cutoff"
  shows "cutoff < pg_next_day cutoff"
    and "1 \<le> month (pg_next_day cutoff)" "month (pg_next_day cutoff) \<le> 12"
    and "1 \<le> day (pg_next_day cutoff)"
  using assms
  by (auto simp add: pg_next_day_def valid_date_def less_date_def date_key_def)

lemma full_window:
  assumes "Date (y + 1) 4 1 \<le> nxt"
  shows "(let ys = Date y 4 1; fye = Date (y + 1) 4 1; ye = min fye nxt; a = pg_age ye ys
      in \<lparr>year_start = ys, year_end = ye, fy_year_end = fye,
          yb_months_covered =
            max 1 (min 12 (fst a * 12 + fst (snd a) + (if 0 < snd (snd a) then 1 else 0)))\<rparr>)
     = \<lparr>year_start = Date y 4 1, year_end = Date (y + 1) 4 1, fy_year_end = Date (y + 1) 4 1,
        yb_months_covered = 12\<rparr>"
proof -
  have m: "min (Date (y + 1) 4 1) nxt = Date (y + 1) 4 1" using assms by (simp add: min_def)
  have n: "\<not> Date (y + 1) 4 1 < Date y 4 1" by (simp add: less_date_def date_key_def)
  have a: "pg_age (Date (y + 1) 4 1) (Date y 4 1) = (1, 0, 0)"
    using n by (simp add: pg_age_def Let_def)
  show ?thesis by (simp add: Let_def m a)
qed

text \<open>
  Claim C4. For a cutoff whose four windows all lie in the Common Era, \<open>year_bounds\<close>
  holds four windows in order: three full fiscal years, from 1 April to the next 1 April,
  with 12 months each, and the fiscal year that contains the cutoff, which ends at the
  earlier of its own end and the day after the cutoff. The months covered by this last
  window lie between 1 and 12 and are the least number of months that, added to the start
  of the window, reach its end (a started month counts as a whole one). A full window is
  labelled "FY" and a window that ends before its fiscal year "YTD FY", followed by the
  last two digits of the year in which the fiscal year ends. For the cutoff 2024-07-10 the
  last window starts on 2024-04-01, ends on 2024-07-11, covers 4 months and is labelled
  "YTD FY25".
\<close>

theorem fiscal_year_windows:
  assumes "valid_date cutoff" "5 \<le> year cutoff"
  shows "(\<exists>F m. Date F 4 1 \<le> cutoff \<and> cutoff < Date (F + 1) 4 1
     \<and> year_bounds cutoff =
         [\<lparr>year_start = Date (F - 3) 4 1, year_end = Date (F - 2) 4 1,
            fy_year_end = Date (F - 2) 4 1, yb_months_covered = 12\<rparr>,
          \<lparr>year_start = Date (F - 2) 4 1, year_end = Date (F - 1) 4 1,
            fy_year_end = Date (F - 1) 4 1, yb_months_covered = 12\<rparr>,
          \<lparr>year_start = Date (F - 1) 4 1, year_end = Date F 4 1,
            fy_year_end = Date F 4 1, yb_months_covered = 12\<rparr>,
          \<lparr>year_start = Date F 4 1, year_end = min (Date (F + 1) 4 1) (pg_next_day cutoff),
            fy_year_end = Date (F + 1) 4 1, yb_months_covered = m\<rparr>]
     \<and> 1 \<le> m \<and> m \<le> 12
     \<and> min (Date (F + 1) 4 1) (pg_next_day cutoff) \<le> pg_add_months (Date F 4 1) m
     \<and> pg_add_months (Date F 4 1) (m - 1) < min (Date (F + 1) 4 1) (pg_next_day cutoff)
     \<and> map fy_label (year_bounds cutoff) =
         [''FY'' @ to_char_yy (Date (F - 2) 4 1), ''FY'' @ to_char_yy (Date (F - 1) 4 1),
          ''FY'' @ to_char_yy (Date F 4 1),
          (if pg_next_day cutoff < Date (F + 1) 4 1 then ''YTD FY'' else ''FY'')
            @ to_char_yy (Date (F + 1) 4 1)])
   \<and> year_bounds (Date 2024 7 10) ! 3 =
        \<lparr>year_start = Date 2024 4 1, year_end = Date 2024 7 11,
         fy_year_end = Date 2025 4 1, yb_months_covered = 4\<rparr>
   \<and> fy_label (year_bounds (Date 2024 7 10) ! 3) = ''YTD FY25''"
proof -
  define F where "F = year (current_fy_start cutoff)"
  define nxt where "nxt = pg_next_day cutoff"
  define e where "e = min (Date (F + 1) 4 1) nxt"
  define m where "m = max 1 (min 12 (fst (pg_age e (Date F 4 1)) * 12
                   + fst (snd (pg_age e (Date F 4 1)))
                   + (if 0 < snd (snd (pg_age e (Date F 4 1))) then 1 else 0)))"
  have fy: "current_fy_start cutoff = Date F 4 1"
    and lo: "Date F 4 1 \<le> cutoff" and hi: "cutoff < Date (F + 1) 4 1"
    using current_fy_start_bounds[OF assms(1)] unfolding F_def by simp_all
  have nx: "cutoff < nxt" "1 \<le> month nxt" "month nxt \<le> 12" "1 \<le> day nxt"
    using pg_next_day_facts[OF assms(1)] unfolding nxt_def by simp_all
  have start_lt: "Date F 4 1 < nxt" using lo nx(1) by simp
  have ys: "pg_add_months (Date F 4 1) (12 * j) = Date (F + j) 4 1" for j
    by (rule add_years_april)
  have le_old: "Date (F + j + 1) 4 1 \<le> nxt" if "j < 0" for j
  proof -
    have "Date (F + j + 1) 4 1 \<le> Date F 4 1"
      using that by (simp add: less_eq_date_def date_key_def)
    then show ?thesis using start_lt by simp
  qed
  have old: "year_bound_of cutoff j =
      \<lparr>year_start = Date (F + j) 4 1, year_end = Date (F + j + 1) 4 1,
       fy_year_end = Date (F + j + 1) 4 1, yb_months_covered = 12\<rparr>" if "j < 0" for j
    using full_window[OF le_old[OF that]]
    unfolding year_bound_of_def fy ys nxt_def[symmetric] by (simp add: add.assoc)
  have cur: "year_bound_of cutoff 0 =
      \<lparr>year_start = Date F 4 1, year_end = e, fy_year_end = Date (F + 1) 4 1,
       yb_months_covered = m\<rparr>"
    unfolding year_bound_of_def fy nxt_def[symmetric]
    using ys[of 0] ys[of 1] by (simp add: Let_def e_def m_def)
  have bounds: "year_bounds cutoff =
         [\<lparr>year_start = Date (F - 3) 4 1, year_end = Date (F - 2) 4 1,
            fy_year_end = Date (F - 2) 4 1, yb_months_covered = 12\<rparr>,
          \<lparr>year_start = Date (F - 2) 4 1, year_end = Date (F - 1) 4 1,
            fy_year_end = Date (F - 1) 4 1, yb_months_covered = 12\<rparr>,
          \<lparr>year_start = Date (F - 1) 4 1, year_end = Date F 4 1,
            fy_year_end = Date F 4 1, yb_months_covered = 12\<rparr>,
          \<lparr>year_start = Date F 4 1, year_end = e,
            fy_year_end = Date (F + 1) 4 1, yb_months_covered = m\<rparr>]"
    unfolding year_bounds_def using old[of "-3"] old[of "-2"] old[of "-1"] cur by simp
  have "Date F 4 1 < Date (F + 1) 4 1" by (simp add: less_date_def date_key_def)
  then have e_lo: "Date F 4 1 < e"
    unfolding e_def using start_lt by simp
  have e_hi: "e \<le> Date (F + 1) 4 1" unfolding e_def by simp
  have e_v: "1 \<le> month e" "month e \<le> 12" "1 \<le> day e"
    unfolding e_def using nx(2-4) by (simp_all add: min_def)
  have mm: "1 \<le> m \<and> m \<le> 12 \<and> e \<le> pg_add_months (Date F 4 1) m
         \<and> pg_add_months (Date F 4 1) (m - 1) < e"
    unfolding m_def by (rule window_months[OF e_lo e_hi e_v])
  have partial: "e < Date (F + 1) 4 1 \<longleftrightarrow> nxt < Date (F + 1) 4 1"
    unfolding e_def by (simp add: min_less_iff_disj)
  have labels: "map fy_label (year_bounds cutoff) =
         [''FY'' @ to_char_yy (Date (F - 2) 4 1), ''FY'' @ to_char_yy (Date (F - 1) 4 1),
          ''FY'' @ to_char_yy (Date F 4 1),
          (if nxt < Date (F + 1) 4 1 then ''YTD FY'' else ''FY'')
            @ to_char_yy (Date (F + 1) 4 1)]"
    unfolding bounds using partial by (simp add: fy_label_def)
  have ex1: "year_bounds (Date 2024 7 10) ! 3 =
        \<lparr>year_start = Date 2024 4 1, year_end = Date 2024 7 11,
         fy_year_end = Date 2025 4 1, yb_months_covered = 4\<rparr>"
    by code_simp
  have ex2: "fy_label (year_bounds (Date 2024 7 10) ! 3) = ''YTD FY25''"
    by code_simp
  note facts = lo hi bounds[unfolded e_def nxt_def] mm[unfolded e_def nxt_def]
    labels[unfolded nxt_def]
  have main: "\<exists>F m. Date F 4 1 \<le> cutoff \<and> cutoff < Date (F + 1) 4 1
     \<and> year_bounds cutoff =
         [\<lparr>year_start = Date (F - 3) 4 1, year_end = Date (F - 2) 4 1,
            fy_year_end = Date (F - 2) 4 1, yb_months_covered = 12\<rparr>,
          \<lparr>year_start = Date (F - 2) 4 1, year_end = Date (F - 1) 4 1,
            fy_year_end = Date (F - 1) 4 1, yb_months_covered = 12\<rparr>,
          \<lparr>year_start = Date (F - 1) 4 1, year_end = Date F 4 1,
            fy_year_end = Date F 4 1, yb_months_covered = 12\<rparr>,
          \<lparr>year_start = Date F 4 1, year_end = min (Date (F + 1) 4 1) (pg_next_day cutoff),
            fy_year_end = Date (F + 1) 4 1, yb_months_covered = m\<rparr>]
     \<and> 1 \<le> m \<and> m \<le> 12
     \<and> min (Date (F + 1) 4 1) (pg_next_day cutoff) \<le> pg_add_months (Date F 4 1) m
     \<and> pg_add_months (Date F 4 1) (m - 1) < min (Date (F + 1) 4 1) (pg_next_day cutoff)
     \<and> map fy_label (year_bounds cutoff) =
         [''FY'' @ to_char_yy (Date (F - 2) 4 1), ''FY'' @ to_char_yy (Date (F - 1) 4 1),
          ''FY'' @ to_char_yy (Date F 4 1),
          (if pg_next_day cutoff < Date (F + 1) 4 1 then ''YTD FY'' else ''FY'')
            @ to_char_yy (Date (F + 1) 4 1)]"
    using facts by (intro exI[of _ F] exI[of _ m] conjI) (simp_all only: simp_thms)
  show ?thesis
    using main ex1 ex2 by (intro conjI)
qed

theorem fiscal_year_windows_witness:
  "valid_date (Date 2024 3 31) \<and> 5 \<le> year (Date 2024 3 31)
   \<and> length (year_bounds (Date 2024 3 31)) = 4
   \<and> map yb_months_covered (year_bounds (Date 2024 3 31)) ! 0 = 12"
proof -
  have v: "valid_date (Date 2024 3 31)" by (simp add: valid_date_def days_in_month_def)
  have y: "5 \<le> year (Date 2024 3 31)" by simp
  show ?thesis using fiscal_year_windows[OF v y] v y by auto
qed

subsection \<open>Tenure buckets\<close>

lemma tenure_months_expr_value:
  "tenure_months_expr (Some r) doj
     = Some (case doj of None \<Rightarrow> 0 | Some d \<Rightarrow> spec_tenure_months r d)"
  by (cases doj)
     (auto simp add: tenure_months_expr_def sql_greatest_def sql_arith_def sql_cmp_def
        sql_where_def spec_tenure_months_def)

lemma sql_where_and_some: "sql_where (sql_and c (Some p)) = (sql_where c \<and> p)"
  by (cases c) (auto simp add: sql_where_def sql_and_def)

lemma bucket_clause_where:
  "sql_where (bucket_clause base (Some r) (fst (snd b)) (snd (snd b)) ed)
     = (sql_where base
        \<and> in_bucket b (case DOJ ed of None \<Rightarrow> 0 | Some d \<Rightarrow> spec_tenure_months r d))"
  by (cases "snd (snd b)")
     (auto simp add: bucket_clause_def Let_def tenure_months_expr_value sql_cmp_def
        sql_where_and_some in_bucket_def)

lemma start_condition_doj: "sql_where (start_condition y ed) \<Longrightarrow> \<exists>d. DOJ ed = Some d"
  by (cases "DOJ ed") (auto simp add: start_condition_def sql_where_def sql_and_def is_not_null_def split: if_splits)

lemma end_condition_doj: "sql_where (end_condition y ed) \<Longrightarrow> \<exists>d. DOJ ed = Some d"
  by (cases "DOJ ed") (auto simp add: end_condition_def sql_where_def sql_and_def is_not_null_def split: if_splits)

lemma monthly_condition_doj: "sql_where (monthly_condition me ed) \<Longrightarrow> \<exists>d. DOJ ed = Some d"
  by (cases "DOJ ed") (auto simp add: monthly_condition_def sql_where_def sql_and_def is_not_null_def split: if_splits)

lemma exit_condition_lwd: "sql_where (exit_condition y ed) \<Longrightarrow> \<exists>l. Final_LWD ed = Some l"
  by (cases "Final_LWD ed") (auto simp add: exit_condition_def sql_where_def sql_and_def is_not_null_def split: if_splits)

lemma count_filter_cong:
  "(\<And>ed. ed \<in> set rows \<Longrightarrow> sql_where (c ed) = p ed) \<Longrightarrow>
     count_filter c rows = int (length (filter p rows))"
  unfolding count_filter_def by (simp cong: filter_cong)

lemma bucket_of_tenure:
  "0 \<le> n \<Longrightarrow> length (filter (\<lambda>b. in_bucket b n) buckets) = 1"
  by (simp add: buckets_def in_bucket_def)

text \<open>
  Claim C6. There are six tenure buckets: 0 to 6, 6 to 12, 12 to 24, 24 to 48 and 48 to
  120 months, and 120 months or more; every tenure of 0 months or more lies in exactly
  one of them. The tenure of a record with a join date is the expression of the query:
  the whole months from the join date to the reference date, one less when the day of
  the reference date is before the day of the join date, and at least 0. Each count of a
  bucket counts the records that satisfy its base condition and whose tenure, taken at
  the start of the window, at the end of the window, at the last working day or at the
  end of the month, lies in the bucket (an exit without a join date has tenure 0). No
  count changes when the stored \<open>Tenure\<close> column is replaced by any other values.
\<close>

theorem tenure_bucket_counts:
  "map snd buckets
     = [(0, Some 6), (6, Some 12), (12, Some 24), (24, Some 48), (48, Some 120), (120, None)]
   \<and> (0 \<le> n \<longrightarrow> length (filter (\<lambda>b. in_bucket b n) buckets) = 1)
   \<and> 0 \<le> spec_tenure_months r d
   \<and> tenure_months_expr (Some r) (Some d) = Some (spec_tenure_months r d)
   \<and> tenure_start_count b y rows
       = int (length (filter (\<lambda>ed. sql_where (start_condition y ed)
                \<and> (\<exists>d. DOJ ed = Some d \<and> in_bucket b (spec_tenure_months (year_start y) d))) rows))
   \<and> tenure_end_count b y rows
       = int (length (filter (\<lambda>ed. sql_where (end_condition y ed)
                \<and> (\<exists>d. DOJ ed = Some d \<and> in_bucket b (spec_tenure_months (year_end y) d))) rows))
   \<and> tenure_exit_count b y rows
       = int (length (filter (\<lambda>ed. sql_where (exit_condition y ed)
                \<and> (\<exists>l. Final_LWD ed = Some l
                      \<and> in_bucket b (case DOJ ed of None \<Rightarrow> 0
                                      | Some d \<Rightarrow> spec_tenure_months l d))) rows))
   \<and> tenure_month_count b month_end rows
       = int (length (filter (\<lambda>ed. sql_where (monthly_condition month_end ed)
                \<and> (\<exists>d. DOJ ed = Some d \<and> in_bucket b (spec_tenure_months month_end d))) rows))
   \<and> tenure_start_count b y (map (\<lambda>ed. ed\<lparr>Tenure := t ed\<rparr>) rows) = tenure_start_count b y rows
   \<and> tenure_end_count b y (map (\<lambda>ed. ed\<lparr>Tenure := t ed\<rparr>) rows) = tenure_end_count b y rows
   \<and> tenure_exit_count b y (map (\<lambda>ed. ed\<lparr>Tenure := t ed\<rparr>) rows) = tenure_exit_count b y rows
   \<and> tenure_month_count b month_end (map (\<lambda>ed. ed\<lparr>Tenure := t ed\<rparr>) rows)
       = tenure_month_count b month_end rows"
proof -
  have bk: "map snd buckets
     = [(0, Some 6), (6, Some 12), (12, Some 24), (24, Some 48), (48, Some 120), (120, None)]"
    by (simp add: buckets_def)
  have one: "0 \<le> n \<longrightarrow> length (filter (\<lambda>b. in_bucket b n) buckets) = 1"
    using bucket_of_tenure by blast
  have nn: "0 \<le> spec_tenure_months r d" by (simp add: spec_tenure_months_def)
  have ex: "tenure_months_expr (Some r) (Some d) = Some (spec_tenure_months r d)"
    by (simp add: tenure_months_expr_value)
  have st: "tenure_start_count b y rows
       = int (length (filter (\<lambda>ed. sql_where (start_condition y ed)
                \<and> (\<exists>d. DOJ ed = Some d \<and> in_bucket b (spec_tenure_months (year_start y) d))) rows))"
    unfolding tenure_start_count_def
    by (rule count_filter_cong) (auto simp add: bucket_clause_where dest: start_condition_doj)
  have en: "tenure_end_count b y rows
       = int (length (filter (\<lambda>ed. sql_where (end_condition y ed)
                \<and> (\<exists>d. DOJ ed = Some d \<and> in_bucket b (spec_tenure_months (year_end y) d))) rows))"
    unfolding tenure_end_count_def
    by (rule count_filter_cong) (auto simp add: bucket_clause_where dest: end_condition_doj)
  have xt: "tenure_exit_count b y rows
       = int (length (filter (\<lambda>ed. sql_where (exit_condition y ed)
                \<and> (\<exists>l. Final_LWD ed = Some l
                      \<and> in_bucket b (case DOJ ed of None \<Rightarrow> 0
                                      | Some d \<Rightarrow> spec_tenure_months l d))) rows))"
    unfolding tenure_exit_count_def
  proof (rule count_filter_cong)
    fix ed
    show "sql_where (bucket_clause (exit_condition y ed) (Final_LWD ed) (fst (snd b)) (snd (snd b)) ed)
      = (sql_where (exit_condition y ed)
                \<and> (\<exists>l. Final_LWD ed = Some l
                      \<and> in_bucket b (case DOJ ed of None \<Rightarrow> 0
                                      | Some d \<Rightarrow> spec_tenure_months l d)))"
    proof (cases "Final_LWD ed")
      case None
      have "\<not> sql_where (exit_condition y ed)" using None exit_condition_lwd[of y ed] by auto
      moreover have "\<not> sql_where (bucket_clause (exit_condition y ed) None (fst (snd b)) (snd (snd b)) ed)"
        using calculation
        by (cases "snd (snd b)"; cases "exit_condition y ed")
           (auto simp add: bucket_clause_def Let_def sql_where_def sql_and_def sql_cmp_def
              split: option.splits if_splits)
      ultimately show ?thesis using None by simp
    next
      case (Some l)
      then show ?thesis by (simp add: bucket_clause_where)
    qed
  qed
  have mo: "tenure_month_count b month_end rows
       = int (length (filter (\<lambda>ed. sql_where (monthly_condition month_end ed)
                \<and> (\<exists>d. DOJ ed = Some d \<and> in_bucket b (spec_tenure_months month_end d))) rows))"
    unfolding tenure_month_count_def
    by (rule count_filter_cong) (auto simp add: bucket_clause_where dest: monthly_condition_doj)
  have t1: "tenure_start_count b y (map (\<lambda>ed. ed\<lparr>Tenure := t ed\<rparr>) rows) = tenure_start_count b y rows"
    by (simp add: tenure_start_count_def count_filter_def filter_map comp_def
        bucket_clause_def start_condition_def)
  have t2: "tenure_end_count b y (map (\<lambda>ed. ed\<lparr>Tenure := t ed\<rparr>) rows) = tenure_end_count b y rows"
    by (simp add: tenure_end_count_def count_filter_def filter_map comp_def
        bucket_clause_def end_condition_def)
  have t3: "tenure_exit_count b y (map (\<lambda>ed. ed\<lparr>Tenure := t ed\<rparr>) rows) = tenure_exit_count b y rows"
    by (simp add: tenure_exit_count_def count_filter_def filter_map comp_def
        bucket_clause_def exit_condition_def)
  have t4: "tenure_month_count b month_end (map (\<lambda>ed. ed\<lparr>Tenure := t ed\<rparr>) rows)
       = tenure_month_count b month_end rows"
    by (simp add: tenure_month_count_def count_filter_def filter_map comp_def
        bucket_clause_def monthly_condition_def)
  show ?thesis
    using bk one nn ex st en xt mo t1 t2 t3 t4 by (intro conjI)
qed

theorem tenure_bucket_counts_witness:
  "tenure_exit_count (''four_ten'', 48, Some 120)
      \<lparr>year_start = Date 2023 4 1, year_end = Date 2024 4 1, fy_year_end = Date 2024 4 1,
       yb_months_covered = 12\<rparr> [example_leaver] = 1
   \<and> tenure_exit_count (''two_four'', 24, Some 48)
      \<lparr>year_start = Date 2023 4 1, year_end = Date 2024 4 1, fy_year_end = Date 2024 4 1,
       yb_months_covered = 12\<rparr> [example_leaver] = 0
   \<and> length (filter (\<lambda>b. in_bucket b 48) buckets) = 1"
proof -
  let ?y = "\<lparr>year_start = Date 2023 4 1, year_end = Date 2024 4 1, fy_year_end = Date 2024 4 1,
       yb_months_covered = 12\<rparr>"
  have e: "DOJ example_leaver = Some (Date 2020 1 15)"
      "Final_LWD example_leaver = Some (Date 2024 2 10)"
    by (simp_all add: example_leaver_def example_employee_def)
  have x: "sql_where (exit_condition ?y example_leaver)"
    by (simp add: exit_condition_def e sql_where_def sql_and_def sql_cmp_def is_not_null_def
        less_eq_date_def less_date_def date_key_def)
  have m: "spec_tenure_months (Date 2024 2 10) (Date 2020 1 15) = 48"
    by (simp add: spec_tenure_months_def)
  show ?thesis
    using tenure_bucket_counts[of 48 "Date 2024 2 10" "Date 2020 1 15" "(''four_ten'', 48, Some 120)" ?y
               "[example_leaver]" "Date 2024 1 31" "\<lambda>_. None"]
      tenure_bucket_counts[of 48 "Date 2024 2 10" "Date 2020 1 15" "(''two_four'', 24, Some 48)" ?y
               "[example_leaver]" "Date 2024 1 31" "\<lambda>_. None"]
    by (simp add: e x m in_bucket_def)
qed

end
